theory Spec2Isabelle
  imports Main "HOL-Library.Char_ord" "HOL-Library.List_Lexorder" "HOL-Library.Product_Lexorder"
begin

section \<open>Key-value tables\<close>

text \<open>
  The program (\<^verbatim>\<open>lang_processor.py\<close>, class \<^verbatim>\<open>MinecraftLangProcessor\<close>) works on Python
  dictionaries of type \<^verbatim>\<open>Dict[str, str]\<close>. A Python dictionary keeps its keys in insertion
  order and holds every key once, so a table is an association list whose keys are
  distinct. Strings are byte strings in UTF-8: equality, emptiness and the order of
  two strings are those of Python's code point strings.
\<close>

type_synonym table = "(string \<times> string) list"

definition dict_keys :: "('k \<times> 'v) list \<Rightarrow> 'k list" where
  "dict_keys d = map fst d"

definition is_dict :: "('k \<times> 'v) list \<Rightarrow> bool" where
  "is_dict d = distinct (dict_keys d)"

definition dict_get :: "('k \<times> 'v) list \<Rightarrow> 'k \<Rightarrow> 'v option" where
  "dict_get d k = map_of d k"

text \<open>\<^verbatim>\<open>d[k] = v\<close>: an existing key keeps its position, a new key goes to the end.\<close>

fun dict_set :: "('k \<times> 'v) list \<Rightarrow> 'k \<Rightarrow> 'v \<Rightarrow> ('k \<times> 'v) list" where
  "dict_set [] k v = [(k, v)]"
| "dict_set ((k', v') # d) k v =
     (if k' = k then (k', v) # d else (k', v') # dict_set d k v)"

text \<open>\<^verbatim>\<open>d.update(e)\<close>: the entries of \<open>e\<close> are stored into \<open>d\<close> one by one, in the order of \<open>e\<close>.\<close>

definition dict_update :: "('k \<times> 'v) list \<Rightarrow> ('k \<times> 'v) list \<Rightarrow> ('k \<times> 'v) list" where
  "dict_update d e = fold (\<lambda>(k, v) acc. dict_set acc k v) e d"

text \<open>\<^verbatim>\<open>dict(items)\<close> for a list of pairs.\<close>

definition dict_of_items :: "('k \<times> 'v) list \<Rightarrow> ('k \<times> 'v) list" where
  "dict_of_items items = dict_update [] items"

text \<open>Truthiness of a Python string: only the empty string is falsy.\<close>

definition truthy :: "string \<Rightarrow> bool" where
  "truthy v = (v \<noteq> [])"

text \<open>
  A dictionary comprehension \<^verbatim>\<open>{key: src[key] for key in keys if key in src}\<close> over keys
  that are pairwise different.
\<close>

definition select_keys :: "('k \<times> 'v) list \<Rightarrow> 'k list \<Rightarrow> ('k \<times> 'v) list" where
  "select_keys src ks =
     concat (map (\<lambda>k. case dict_get src k of Some v \<Rightarrow> [(k, v)] | None \<Rightarrow> []) ks)"

subsection \<open>First-stage difference (\<^verbatim>\<open>extract_lang_diff\<close>, lines 177-178)\<close>

text \<open>
  \<^verbatim>\<open>diff_keys = set(all_en_us.keys()) - set(all_ja_jp.keys())\<close>
  \<^verbatim>\<open>all_diff = {key: all_en_us[key] for key in sorted(list(diff_keys)) if key in all_en_us}\<close>
\<close>

definition lang_diff :: "table \<Rightarrow> table \<Rightarrow> table" where
  "lang_diff all_en_us all_ja_jp =
     (let diff_keys = set (dict_keys all_en_us) - set (dict_keys all_ja_jp)
      in select_keys all_en_us (sorted_list_of_set diff_keys))"

subsection \<open>Second-stage difference (\<^verbatim>\<open>find_untranslated\<close>, lines 213-215)\<close>

text \<open>
  \<^verbatim>\<open>already_translated_keys = {k for k, v in translated.items() if v}\<close>
  \<^verbatim>\<open>keys_to_translate = set(all_diff.keys()) - already_translated_keys\<close>
  \<^verbatim>\<open>untranslated_dict = {key: all_diff[key] for key in sorted(list(keys_to_translate))}\<close>
  The keys of the comprehension are keys of \<open>all_diff\<close>, so the lookup never raises.
\<close>

definition untranslated_diff :: "table \<Rightarrow> table \<Rightarrow> table" where
  "untranslated_diff all_diff translated =
     (let already_translated_keys = set (map fst (filter (\<lambda>(k, v). truthy v) translated));
          keys_to_translate = set (dict_keys all_diff) - already_translated_keys
      in select_keys all_diff (sorted_list_of_set keys_to_translate))"

subsection \<open>Chunking (\<^verbatim>\<open>_create_chunks\<close>, lines 286-291)\<close>

datatype exn = ValueError | TypeError | RuntimeError | OSError

text \<open>
  \<^verbatim>\<open>[dict(items[i:i + n]) for i in range(0, len(items), n)]\<close> for a positive step \<open>n\<close>,
  with \<open>i\<close> the current start of the range.
\<close>

function chunks_from :: "nat \<Rightarrow> nat \<Rightarrow> ('k \<times> 'v) list \<Rightarrow> ('k \<times> 'v) list list" where
  "chunks_from n i items =
     (if n = 0 \<or> length items \<le> i then []
      else dict_of_items (take n (drop i items)) # chunks_from n (i + n) items)"
  by pat_completeness auto
termination
  by (relation "measure (\<lambda>(n, i, items). length items - i)") auto

declare chunks_from.simps [simp del]

text \<open>
  The chunk size is the attribute \<^verbatim>\<open>translation_chunk_size\<close> (1500 in the constructor), a
  Python integer: \<^verbatim>\<open>range\<close> raises \<^verbatim>\<open>ValueError\<close> for the step 0 and is empty for a
  negative step.
\<close>

definition create_chunks :: "int \<Rightarrow> ('k \<times> 'v) list \<Rightarrow> exn + ('k \<times> 'v) list list" where
  "create_chunks translation_chunk_size data =
     (let items = data in
      if translation_chunk_size = 0 then Inl ValueError
      else if translation_chunk_size < 0 then Inr []
      else Inr (chunks_from (nat translation_chunk_size) 0 items))"

subsection \<open>Parsed JSON values under \<^verbatim>\<open>len\<close> and \<^verbatim>\<open>dict.update\<close>\<close>

text \<open>
  \<^verbatim>\<open>json.loads\<close> gives an object, an array, a string, or a number, \<^verbatim>\<open>true\<close>, \<^verbatim>\<open>false\<close> or
  \<^verbatim>\<open>null\<close>; the program hands the value unchecked to \<^verbatim>\<open>len\<close> and to \<^verbatim>\<open>dict.update\<close>. Keys and
  values are strings, as in every table. An element of an array is a pair when it is a
  sequence of two strings (an array of two strings, a string of two characters, an
  object of two keys), which \<^verbatim>\<open>update\<close> stores as key and value; on every other element
  \<^verbatim>\<open>update\<close> raises (\<^verbatim>\<open>TypeError\<close> or \<^verbatim>\<open>ValueError\<close>, which the program catches alike).
\<close>

datatype element = Pair string string | NotAPair

datatype json = JObject table | JArray "element list" | JString string | JScalar

text \<open>\<^verbatim>\<open>len(v)\<close> raises \<^verbatim>\<open>TypeError\<close> on a number, a truth value and \<^verbatim>\<open>null\<close>.\<close>

fun len_raises :: "json \<Rightarrow> bool" where
  "len_raises JScalar = True"
| "len_raises v = False"

text \<open>
  \<^verbatim>\<open>d.update(v)\<close>: the dictionary afterwards, and the exception if it raised. An array is
  stored element by element, so what precedes the first bad element stays stored. A
  string is iterated by character: its first character is a sequence of length one, so
  only the empty string passes.
\<close>

fun update_elements :: "table \<Rightarrow> element list \<Rightarrow> table \<times> exn option" where
  "update_elements d [] = (d, None)"
| "update_elements d (Pair k v # rest) = update_elements (dict_set d k v) rest"
| "update_elements d (NotAPair # rest) = (d, Some TypeError)"

fun py_update :: "table \<Rightarrow> json \<Rightarrow> table \<times> exn option" where
  "py_update d (JObject t) = (dict_update d t, None)"
| "py_update d (JArray elements) = update_elements d elements"
| "py_update d (JString s) = (if s = [] then (d, None) else (d, Some ValueError))"
| "py_update d JScalar = (d, Some TypeError)"

section \<open>The working directory, the log and the collaborators\<close>

text \<open>
  A JSON file on disk either holds a document or cannot be parsed. The table files of the
  working directory are kept as a finite listing, so that the glob of
  \<^verbatim>\<open>_cleanup_progress_files\<close> can be run; \<^verbatim>\<open>pack.mcmeta\<close> holds a record of its own.
\<close>

datatype 'a stored = Intact 'a | Corrupt

datatype path =
    DiffFile string
  | UntranslatedFile string
  | TranslatedFile string
  | ProgressFile int
  | LangFile
  | PackMcmeta

record pack_meta =
  meta_pack_format :: int
  meta_description :: string

datatype level = INFO | WARNING | ERROR

text \<open>
  What a run leaves in the log, in order. \<open>Saved\<close> and \<open>SaveFailed\<close> are the two log lines
  of \<^verbatim>\<open>_save_json\<close> (info and error), \<open>SavedMeta\<close> the info line for \<^verbatim>\<open>pack.mcmeta\<close>,
  \<open>Removed\<close> and \<open>CleanupFailed\<close> the lines of \<^verbatim>\<open>_cleanup_progress_files\<close>; \<open>Called\<close> marks a
  call of the translation command and \<open>Slept\<close> a call of \<^verbatim>\<open>time.sleep\<close>.
\<close>

datatype event =
    Log level string
  | Saved path table
  | SavedMeta pack_meta
  | SaveFailed path
  | Called table
  | Slept
  | CleanupStarted
  | Removed path
  | CleanupFailed

record world =
  files :: "(path \<times> table stored) list"
  manifest :: "pack_meta stored option"
  trace :: "event list"

text \<open>
  The collaborators. A write either succeeds, fails before the file is opened (the file
  is as before) or fails while the document is written (the file is left unparseable).
  The translation command either cannot be started or exits with a return code and an
  output, which holds no JSON block, a JSON text that does not parse, or a parsed value.
\<close>

datatype write_outcome = WriteOk | OpenFails | DumpFails

datatype payload = NoJson | Malformed | Parsed json

datatype proc = SpawnFails | Exited int payload

record env =
  translation_chunk_size :: int
  translation_wait_time :: int
  date_str :: string
  latest_file :: "string \<Rightarrow> path option"
  gemini :: "table \<Rightarrow> proc"
  disk :: "path \<Rightarrow> write_outcome"
  unlink_fails :: "path \<Rightarrow> bool"
  mkdir_fails :: bool
  scanned_en_us :: table
  scanned_ja_jp :: table

text \<open>
  \<open>latest_file e prefix\<close> is what \<^verbatim>\<open>_get_latest_file\<close> finds for the directory of that prefix
  (the newest file by modification time, if there is one); each stage asks once, before
  it writes. \<open>date_str\<close> is the date of the run, \<open>unlink_fails\<close> tells for which files
  \<^verbatim>\<open>unlink\<close> raises, \<open>mkdir_fails\<close> whether the pack directory cannot be created.
\<close>

definition emit :: "event \<Rightarrow> world \<Rightarrow> world" where
  "emit e w = w\<lparr>trace := trace w @ [e]\<rparr>"

definition log :: "level \<Rightarrow> string \<Rightarrow> world \<Rightarrow> world" where
  "log l m w = emit (Log l m) w"

definition file_exists :: "path \<Rightarrow> world \<Rightarrow> bool" where
  "file_exists p w = (dict_get (files w) p \<noteq> None)"

definition put_file :: "path \<Rightarrow> 'a stored option \<Rightarrow> (path \<times> 'a stored) list \<Rightarrow> (path \<times> 'a stored) list" where
  "put_file p f fs =
     (case f of None \<Rightarrow> filter (\<lambda>(q, c). q \<noteq> p) fs | Some c \<Rightarrow> dict_set fs p c)"

subsection \<open>\<^verbatim>\<open>_save_json\<close> (lines 100-108) and \<^verbatim>\<open>_load_json\<close> (lines 110-123)\<close>

text \<open>The body of the \<^verbatim>\<open>try\<close> block: what is on disk afterwards, and whether it raised.\<close>

definition write_file :: "write_outcome \<Rightarrow> 'a \<Rightarrow> 'a stored option \<Rightarrow> exn option \<times> 'a stored option" where
  "write_file out data old =
     (case out of
        WriteOk \<Rightarrow> (None, Some (Intact data))
      | OpenFails \<Rightarrow> (Some OSError, old)
      | DumpFails \<Rightarrow> (Some OSError, Some Corrupt))"

text \<open>\<^verbatim>\<open>except Exception\<close> turns every failure of the body into an error line.\<close>

definition save_json :: "env \<Rightarrow> table \<Rightarrow> path \<Rightarrow> world \<Rightarrow> world" where
  "save_json e data filepath w =
     (case write_file (disk e filepath) data (dict_get (files w) filepath) of
        (None, f) \<Rightarrow> emit (Saved filepath data) (w\<lparr>files := put_file filepath f (files w)\<rparr>)
      | (Some err, f) \<Rightarrow> emit (SaveFailed filepath) (w\<lparr>files := put_file filepath f (files w)\<rparr>))"

definition save_json_meta :: "env \<Rightarrow> pack_meta \<Rightarrow> world \<Rightarrow> world" where
  "save_json_meta e data w =
     (case write_file (disk e PackMcmeta) data (manifest w) of
        (None, f) \<Rightarrow> emit (SavedMeta data) (w\<lparr>manifest := f\<rparr>)
      | (Some err, f) \<Rightarrow> emit (SaveFailed PackMcmeta) (w\<lparr>manifest := f\<rparr>))"

definition load_json :: "path \<Rightarrow> world \<Rightarrow> table option \<times> world" where
  "load_json file_path w =
     (case dict_get (files w) file_path of
        None \<Rightarrow> (None, log ERROR ''file not found'' w)
      | Some Corrupt \<Rightarrow> (None, log ERROR ''JSON parse failed'' w)
      | Some (Intact t) \<Rightarrow> (Some t, w))"

subsection \<open>\<^verbatim>\<open>_call_gemini_cli\<close> (lines 293-333)\<close>

text \<open>
  A start failure and a non-zero return code leave as an exception (the \<^verbatim>\<open>RuntimeError\<close>
  is logged twice, once where it is raised and once by \<^verbatim>\<open>except Exception\<close>, which raises
  it again). An output without JSON and a JSON text that does not parse give the input
  back. A parsed value is returned as it is, whatever its kind, after the info line that
  takes its \<^verbatim>\<open>len\<close>; when \<^verbatim>\<open>len\<close> raises, \<^verbatim>\<open>except Exception\<close> logs and raises again.
\<close>

definition call_gemini_cli :: "env \<Rightarrow> table \<Rightarrow> world \<Rightarrow> (exn + json) \<times> world" where
  "call_gemini_cli e input_data w =
     (let w1 = emit (Called input_data) (log INFO ''running Gemini CLI'' w) in
      case gemini e input_data of
        SpawnFails \<Rightarrow> (Inl OSError, log ERROR ''error while calling Gemini CLI'' w1)
      | Exited returncode out \<Rightarrow>
          if returncode \<noteq> 0
          then (Inl RuntimeError,
                log ERROR ''error while calling Gemini CLI'' (log ERROR ''Gemini CLI error'' w1))
          else (case out of
                  NoJson \<Rightarrow>
                    (Inr (JObject input_data), log WARNING ''no JSON in response, returning input'' w1)
                | Malformed \<Rightarrow>
                    (Inr (JObject input_data), log ERROR ''JSON parse of response failed'' w1)
                | Parsed translated_data \<Rightarrow>
                    if len_raises translated_data
                    then (Inl TypeError, log ERROR ''error while calling Gemini CLI'' w1)
                    else (Inr translated_data, log INFO ''translation done'' w1)))"

subsection \<open>\<^verbatim>\<open>_cleanup_progress_files\<close> (lines 365-376)\<close>

fun is_progress :: "path \<Rightarrow> bool" where
  "is_progress (ProgressFile i) = True"
| "is_progress p = False"

text \<open>
  The loop over the globbed files, taken in the order of the listing; an \<^verbatim>\<open>unlink\<close> that
  raises ends it.
\<close>

fun unlink_all :: "env \<Rightarrow> path list \<Rightarrow> world \<Rightarrow> world" where
  "unlink_all e [] w = w"
| "unlink_all e (f # fs) w =
     (if unlink_fails e f then emit CleanupFailed w
      else unlink_all e fs (emit (Removed f) (w\<lparr>files := put_file f None (files w)\<rparr>)))"

definition cleanup_progress_files :: "env \<Rightarrow> world \<Rightarrow> world" where
  "cleanup_progress_files e w =
     (let progress_files = filter is_progress (dict_keys (files w)) in
      if progress_files = [] then w
      else unlink_all e progress_files (emit CleanupStarted w))"

subsection \<open>\<^verbatim>\<open>auto_translate\<close> (lines 225-284)\<close>

text \<open>
  Lines 248-259: the cumulative table and the first chunk to process. \<^verbatim>\<open>resume_chunk\<close>
  is the optional integer of the command line.
\<close>

definition resume_from :: "int option \<Rightarrow> world \<Rightarrow> (table \<times> int) \<times> world" where
  "resume_from resume_chunk w =
     (case resume_chunk of
        None \<Rightarrow> (([], 1), w)
      | Some r \<Rightarrow>
          if r \<noteq> 0 \<and> r > 1 then
            (let progress_file_to_load = ProgressFile (r - 1) in
             if file_exists progress_file_to_load w then
               (case load_json progress_file_to_load (log INFO ''loading progress'' w) of
                  (loaded, w1) \<Rightarrow>
                    ((case loaded of None \<Rightarrow> [] | Some t \<Rightarrow> t, r),
                     log INFO ''resuming from chunk'' w1))
             else (([], 1), log WARNING ''progress file not found, starting from the beginning'' w))
          else (([], 1), w))"

text \<open>
  Lines 261-280: the loop over \<^verbatim>\<open>enumerate(chunks, 1)\<close>, with \<open>i\<close> the number of the chunk at
  the head of the list and \<open>n\<close> the number of chunks. The checkpoint is saved and the wait
  is made inside the \<^verbatim>\<open>try\<close> block, after the call and the \<^verbatim>\<open>update\<close>; the \<^verbatim>\<open>except\<close> branch,
  taken when the call or the \<^verbatim>\<open>update\<close> raises, stores the chunk's own entries into the
  dictionary as the \<^verbatim>\<open>update\<close> left it and goes on.
\<close>

fun translate_chunks :: "env \<Rightarrow> int \<Rightarrow> int \<Rightarrow> int \<Rightarrow> table list \<Rightarrow> table \<times> world \<Rightarrow> table \<times> world" where
  "translate_chunks e start_chunk n i [] (translated_data, w) = (translated_data, w)"
| "translate_chunks e start_chunk n i (chunk # rest) (translated_data, w) =
     (if i < start_chunk then translate_chunks e start_chunk n (i + 1) rest (translated_data, w)
      else
        (case call_gemini_cli e chunk (log INFO ''processing chunk'' w) of
           (Inr translated_chunk, w1) \<Rightarrow>
             (case py_update translated_data translated_chunk of
                (translated_data', None) \<Rightarrow>
                  (let w2 = save_json e translated_data' (ProgressFile i) w1;
                       w3 = (if i < n then emit Slept (log INFO ''waiting'' w2) else w2)
                   in translate_chunks e start_chunk n (i + 1) rest (translated_data', w3))
              | (translated_data', Some err) \<Rightarrow>
                  (let w2 = log INFO ''chunk skipped, original data is used''
                              (log ERROR ''error while processing chunk'' w1)
                   in translate_chunks e start_chunk n (i + 1) rest
                        (dict_update translated_data' chunk, w2)))
         | (Inl err, w1) \<Rightarrow>
             (let w2 = log INFO ''chunk skipped, original data is used''
                         (log ERROR ''error while processing chunk'' w1)
              in translate_chunks e start_chunk n (i + 1) rest
                   (dict_update translated_data chunk, w2))))"

definition auto_translate :: "env \<Rightarrow> int option \<Rightarrow> world \<Rightarrow> exn + world" where
  "auto_translate e resume_chunk w =
     (let w0 = log INFO ''step 3: automatic translation starts'' w in
      case latest_file e ''all_untranslated'' of
        None \<Rightarrow> Inr (log ERROR ''untranslated file not found'' w0)
      | Some latest_untranslated_file \<Rightarrow>
          (case load_json latest_untranslated_file w0 of
             (loaded, w1) \<Rightarrow>
               (case loaded of
                  None \<Rightarrow> Inr (log INFO ''zero keys to translate'' w1)
                | Some data_to_translate \<Rightarrow>
                    if data_to_translate = [] then Inr (log INFO ''zero keys to translate'' w1)
                    else
                      (case create_chunks (translation_chunk_size e) data_to_translate of
                         Inl err \<Rightarrow> Inl err
                       | Inr chunks \<Rightarrow>
                           (case resume_from resume_chunk
                                   (log INFO ''split into chunks''
                                     (log INFO ''total number of items''
                                       (log INFO ''output file'' (log INFO ''input file'' w1)))) of
                              ((translated_data, start_chunk), w2) \<Rightarrow>
                                (case translate_chunks e start_chunk (int (length chunks)) 1 chunks
                                        (translated_data, w2) of
                                   (translated_data', w3) \<Rightarrow>
                                     Inr (cleanup_progress_files e
                                           (log INFO ''all translation finished''
                                             (save_json e translated_data'
                                                (TranslatedFile (date_str e)) w3)))))))))"

subsection \<open>\<^verbatim>\<open>extract_lang_diff\<close> (lines 151-187) and \<^verbatim>\<open>find_untranslated\<close> (lines 189-223)\<close>

text \<open>
  The scan of the archives (lines 159-175) is taken as given: \<open>scanned_en_us\<close> and
  \<open>scanned_ja_jp\<close> are the two tables it leaves.
\<close>

definition extract_lang_diff :: "env \<Rightarrow> world \<Rightarrow> world" where
  "extract_lang_diff e w =
     (let w0 = log INFO ''step 1: extraction starts'' w;
          all_diff = lang_diff (scanned_en_us e) (scanned_ja_jp e);
          w1 = log INFO ''number of untranslated keys''
                 (log INFO ''number of ja_jp keys'' (log INFO ''number of en_us keys'' w0))
      in log INFO ''step 1 finished'' (save_json e all_diff (DiffFile (date_str e)) w1))"

definition find_untranslated :: "env \<Rightarrow> world \<Rightarrow> world" where
  "find_untranslated e w =
     (let w0 = log INFO ''step 2: search for untranslated keys starts'' w in
      case latest_file e ''all_diff'' of
        None \<Rightarrow> log ERROR ''diff file not found'' w0
      | Some latest_diff_file \<Rightarrow>
          (case load_json latest_diff_file w0 of
             (None, w1) \<Rightarrow> w1
           | (Some all_diff, w1) \<Rightarrow>
               (case (if \<not> file_exists LangFile w1
                      then (all_diff, log INFO ''no existing resource pack'' w1)
                      else (case load_json LangFile (log INFO ''existing resource pack found'' w1) of
                              (loaded, w2) \<Rightarrow>
                                (untranslated_diff all_diff (case loaded of None \<Rightarrow> [] | Some t \<Rightarrow> t),
                                 log INFO ''number of keys still untranslated''
                                   (log INFO ''number of translated keys loaded'' w2)))) of
                  (untranslated_dict, w3) \<Rightarrow>
                    log INFO ''step 2 finished''
                      (save_json e untranslated_dict (UntranslatedFile (date_str e)) w3))))"

subsection \<open>\<^verbatim>\<open>build_resource_pack\<close> (lines 378-428)\<close>

definition pack_format :: int where
  "pack_format = 48"

definition pack_description :: string where
  "pack_description = ''Adds Japanese translations for Cobblemon and other mods.''"

text \<open>
  \<^verbatim>\<open>lang_dir.mkdir\<close> (line 411) is outside every \<^verbatim>\<open>try\<close>: when it raises, the stage ends with
  the exception. \<^verbatim>\<open>sorted(base_translations.items())\<close> orders the entries as pairs.
\<close>

definition build_resource_pack :: "env \<Rightarrow> world \<Rightarrow> exn + world" where
  "build_resource_pack e w =
     (let w0 = log INFO ''step 4: resource pack build starts'' w in
      case latest_file e ''all_translated'' of
        None \<Rightarrow> Inr (log ERROR ''translated file not found'' w0)
      | Some latest_translated_file \<Rightarrow>
          (case load_json latest_translated_file w0 of
             (None, w1) \<Rightarrow> Inr w1
           | (Some newly_translated_data, w1) \<Rightarrow>
               (case (if file_exists LangFile (log INFO ''newly translated keys loaded'' w1)
                      then (case load_json LangFile
                                   (log INFO ''merging into the existing pack''
                                     (log INFO ''newly translated keys loaded'' w1)) of
                              (loaded, w2) \<Rightarrow> (case loaded of None \<Rightarrow> [] | Some t \<Rightarrow> t, w2))
                      else ([], log INFO ''newly translated keys loaded'' w1)) of
                  (base_translations, w3) \<Rightarrow>
                    (let merged = dict_update base_translations newly_translated_data;
                         final_translations = dict_of_items (sort merged);
                         w4 = log INFO ''creating directory''
                                (log INFO ''number of keys after the merge''
                                  (log INFO ''number of keys before the merge'' w3))
                     in if mkdir_fails e then Inl OSError
                        else
                          (let pack_meta = \<lparr>meta_pack_format = pack_format,
                                            meta_description = pack_description\<rparr>;
                               w5 = save_json_meta e pack_meta w4;
                               w6 = save_json e final_translations LangFile w5
                           in Inr (log INFO ''step 4 finished''
                                    (log INFO ''location of the pack''
                                      (log INFO ''resource pack created or updated'' w6))))))))"

section \<open>Reading the log\<close>

text \<open>The tables that were saved, with their paths, in the order of the log.\<close>

fun saved_of :: "event \<Rightarrow> (path \<times> table) list" where
  "saved_of (Saved p t) = [(p, t)]"
| "saved_of ev = []"

definition saved :: "event list \<Rightarrow> (path \<times> table) list" where
  "saved tr = concat (map saved_of tr)"

text \<open>The chunks handed to the translation command, in the order of the log.\<close>

fun call_of :: "event \<Rightarrow> table list" where
  "call_of (Called c) = [c]"
| "call_of ev = []"

definition calls :: "event list \<Rightarrow> table list" where
  "calls tr = concat (map call_of tr)"

text \<open>
  What a stage reports of itself: the lines it logs, the calls of the translation command
  and the waits. The lines of \<^verbatim>\<open>_save_json\<close> and of \<^verbatim>\<open>_cleanup_progress_files\<close> tell what
  happened on disk and are left out. The outcome of a stage is the exception it ends
  with, or its report.
\<close>

fun stage_level :: "event \<Rightarrow> bool" where
  "stage_level (Log l m) = True"
| "stage_level (Called c) = True"
| "stage_level Slept = True"
| "stage_level ev = False"

definition report :: "event list \<Rightarrow> event list" where
  "report tr = filter stage_level tr"

definition outcome :: "exn + world \<Rightarrow> exn + event list" where
  "outcome res = map_sum id (\<lambda>w. report (trace w)) res"

text \<open>
  What \<^verbatim>\<open>_call_gemini_cli\<close> gives for a chunk, and the cumulative table after the loop body
  has run on a chunk. A chunk is checkpointed when neither the call nor the \<^verbatim>\<open>update\<close>
  raises.
\<close>

definition gemini_answer :: "env \<Rightarrow> table \<Rightarrow> exn + json" where
  "gemini_answer e chunk =
     (case gemini e chunk of
        SpawnFails \<Rightarrow> Inl OSError
      | Exited returncode out \<Rightarrow>
          if returncode \<noteq> 0 then Inl RuntimeError
          else (case out of
                  NoJson \<Rightarrow> Inr (JObject chunk)
                | Malformed \<Rightarrow> Inr (JObject chunk)
                | Parsed v \<Rightarrow> if len_raises v then Inl TypeError else Inr v))"

definition chunk_step :: "env \<Rightarrow> table \<Rightarrow> table \<Rightarrow> table" where
  "chunk_step e chunk td =
     (case gemini_answer e chunk of
        Inl err \<Rightarrow> dict_update td chunk
      | Inr v \<Rightarrow>
          (case py_update td v of
             (td', None) \<Rightarrow> td'
           | (td', Some err) \<Rightarrow> dict_update td' chunk))"

definition checkpointed :: "env \<Rightarrow> table \<Rightarrow> bool" where
  "checkpointed e chunk =
     (case gemini_answer e chunk of Inl err \<Rightarrow> False | Inr v \<Rightarrow> snd (py_update [] v) = None)"

text \<open>
  The lines of the save operation in a log, and the line one save leaves: the info line
  when the write succeeds, the error line when it fails.
\<close>

fun is_save_line :: "event \<Rightarrow> bool" where
  "is_save_line (Saved p t) = True"
| "is_save_line (SavedMeta m) = True"
| "is_save_line (SaveFailed p) = True"
| "is_save_line ev = False"

definition save_lines :: "event list \<Rightarrow> event list" where
  "save_lines tr = filter is_save_line tr"

definition save_line :: "env \<Rightarrow> path \<Rightarrow> table \<Rightarrow> event" where
  "save_line e p data = (if disk e p = WriteOk then Saved p data else SaveFailed p)"

definition save_line_meta :: "env \<Rightarrow> pack_meta \<Rightarrow> event" where
  "save_line_meta e m = (if disk e PackMcmeta = WriteOk then SavedMeta m else SaveFailed PackMcmeta)"

text \<open>The lines the loop leaves for its checkpoints, from chunk number \<open>i\<close> on.\<close>

fun checkpoint_lines :: "env \<Rightarrow> int \<Rightarrow> int \<Rightarrow> table list \<Rightarrow> table \<Rightarrow> event list" where
  "checkpoint_lines e start_chunk i [] td = []"
| "checkpoint_lines e start_chunk i (chunk # rest) td =
     (if i < start_chunk then checkpoint_lines e start_chunk (i + 1) rest td
      else (if checkpointed e chunk then [save_line e (ProgressFile i) (chunk_step e chunk td)] else [])
           @ checkpoint_lines e start_chunk (i + 1) rest (chunk_step e chunk td))"

text \<open>The published table a stage finds: empty when the file is missing or unreadable.\<close>

definition published :: "world \<Rightarrow> table" where
  "published w = (case dict_get (files w) LangFile of Some (Intact t) \<Rightarrow> t | _ \<Rightarrow> [])"

section \<open>Example runs\<close>

text \<open>
  A translation command that translates the chunks \<open>k1\<close> and \<open>k3\<close> and exits with code 1
  on every other chunk; chunks of one entry; every write and every removal succeeds.
\<close>

definition example_gemini :: "table \<Rightarrow> proc" where
  "example_gemini chunk =
     (if chunk = [(''k1'', ''v1'')] then Exited 0 (Parsed (JObject [(''k1'', ''t1'')]))
      else if chunk = [(''k3'', ''v3'')] then Exited 0 (Parsed (JObject [(''k3'', ''t3'')]))
      else Exited 1 NoJson)"

definition example_env :: env where
  "example_env = \<lparr>translation_chunk_size = 1, translation_wait_time = 3600, date_str = ''261106'',
     latest_file = (\<lambda>prefix. if prefix = ''all_untranslated'' then Some (UntranslatedFile ''261105'')
                             else if prefix = ''all_translated'' then Some (TranslatedFile ''261106'')
                             else None),
     gemini = example_gemini, disk = (\<lambda>p. WriteOk), unlink_fails = (\<lambda>p. False), mkdir_fails = False,
     scanned_en_us = [], scanned_ja_jp = []\<rparr>"

text \<open>A translation command that answers every chunk but \<open>k1\<close> with the JSON text \<^verbatim>\<open>[]\<close>.\<close>

definition array_answer_env :: env where
  "array_answer_env = example_env\<lparr>gemini :=
     (\<lambda>chunk. if chunk = [(''k1'', ''v1'')] then Exited 0 (Parsed (JObject [(''k1'', ''t1'')]))
              else Exited 0 (Parsed (JArray [])))\<rparr>"

definition world_with_backlog :: "table \<Rightarrow> world" where
  "world_with_backlog backlog =
     \<lparr>files = [(UntranslatedFile ''261105'', Intact backlog)], manifest = None, trace = []\<rparr>"

text \<open>The same working directory with the checkpoint of chunk 1 left by an interrupted run.\<close>

definition world_interrupted :: "table \<Rightarrow> table \<Rightarrow> world" where
  "world_interrupted backlog checkpoint =
     \<lparr>files = [(UntranslatedFile ''261105'', Intact backlog), (ProgressFile 1, Intact checkpoint)],
      manifest = None, trace = []\<rparr>"

text \<open>
  A disk on which the writes of the first checkpoint, of the published table and of the
  manifest fail, and a working directory that holds an artifact of every stage.
\<close>

definition failing_disk :: "path \<Rightarrow> write_outcome" where
  "failing_disk p =
     (if p = ProgressFile 1 then OpenFails
      else if p = LangFile then DumpFails
      else if p = PackMcmeta then OpenFails
      else WriteOk)"

definition failing_disk_env :: env where
  "failing_disk_env = example_env\<lparr>
     latest_file := (\<lambda>prefix. if prefix = ''all_diff'' then Some (DiffFile ''261105'')
                              else if prefix = ''all_untranslated'' then Some (UntranslatedFile ''261105'')
                              else if prefix = ''all_translated'' then Some (TranslatedFile ''261105'')
                              else None),
     disk := failing_disk\<rparr>"

definition world_with_artifacts :: world where
  "world_with_artifacts =
     \<lparr>files = [(DiffFile ''261105'', Intact [(''k1'', ''v1''), (''k2'', ''v2'')]),
               (UntranslatedFile ''261105'', Intact [(''k1'', ''v1''), (''k2'', ''v2'')]),
               (TranslatedFile ''261105'', Intact [(''k1'', ''t1'')])],
      manifest = None, trace = []\<rparr>"

text \<open>The UTF-8 bytes of the two Japanese values of the publishing example.\<close>

definition konnichiwa :: string where
  "konnichiwa = [CHR 0xE3, CHR 0x81, CHR 0x93, CHR 0xE3, CHR 0x82, CHR 0x93, CHR 0xE3, CHR 0x81, CHR 0xAB,
                 CHR 0xE3, CHR 0x81, CHR 0xA1, CHR 0xE3, CHR 0x81, CHR 0xAF]"

definition sekai :: string where
  "sekai = [CHR 0xE4, CHR 0xB8, CHR 0x96, CHR 0xE7, CHR 0x95, CHR 0x8C]"

text \<open>A working directory with a translated artifact and, optionally, a published table.\<close>

definition world_to_publish :: "table option \<Rightarrow> table \<Rightarrow> world" where
  "world_to_publish existing translated =
     \<lparr>files = (case existing of None \<Rightarrow> [] | Some t \<Rightarrow> [(LangFile, Intact t)])
                @ [(TranslatedFile ''261106'', Intact translated)],
      manifest = None, trace = []\<rparr>"

section \<open>Properties of tables\<close>

lemma map_of_dict_set: "map_of (dict_set d k v) = (map_of d)(k \<mapsto> v)"
  by (induction d) (auto simp: fun_eq_iff)

lemma keys_dict_set:
  "map fst (dict_set d k v) = (if k \<in> fst ` set d then map fst d else map fst d @ [k])"
  by (induction d) force+

lemma set_keys_dict_set: "fst ` set (dict_set d k v) = insert k (fst ` set d)"
  by (induction d k v rule: dict_set.induct) (simp_all add: insert_commute)

lemma distinct_dict_set: "distinct (map fst d) \<Longrightarrow> distinct (map fst (dict_set d k v))"
  by (simp add: keys_dict_set)

lemma dict_set_fresh: "k \<notin> set (map fst d) \<Longrightarrow> dict_set d k v = d @ [(k, v)]"
  by (induction d) auto

lemma map_of_dict_update: "map_of (dict_update d e) = map_of d ++ map_of (rev e)"
  unfolding dict_update_def
proof (induction e arbitrary: d)
  case Nil
  show ?case by simp
next
  case (Cons x e)
  obtain k v where x: "x = (k, v)" by (cases x)
  have "map_of (fold (\<lambda>(k, v) acc. dict_set acc k v) e (dict_set d k v))
        = map_of (dict_set d k v) ++ map_of (rev e)"
    by (rule Cons.IH)
  then show ?case
    by (simp add: x map_of_dict_set map_add_def fun_eq_iff split: option.splits)
qed

lemma set_keys_dict_update:
  "fst ` set (dict_update d e) = fst ` set d \<union> fst ` set e"
  unfolding dict_update_def
proof (induction e arbitrary: d)
  case Nil
  show ?case by simp
next
  case (Cons x e)
  obtain k v where x: "x = (k, v)" by (cases x)
  show ?case using Cons.IH [of "dict_set d k v"] by (simp add: x set_keys_dict_set)
qed

lemma distinct_dict_update:
  "distinct (map fst d) \<Longrightarrow> distinct (map fst (dict_update d e))"
  unfolding dict_update_def
  by (induction e arbitrary: d) (auto simp: distinct_dict_set split: prod.splits)

lemma dict_update_fresh:
  "distinct (map fst e) \<Longrightarrow> set (map fst d) \<inter> set (map fst e) = {} \<Longrightarrow> dict_update d e = d @ e"
  unfolding dict_update_def
proof (induction e arbitrary: d)
  case Nil
  show ?case by simp
next
  case (Cons x e)
  obtain k v where x: "x = (k, v)" by (cases x)
  from Cons.prems have fresh: "k \<notin> set (map fst d)" and de: "distinct (map fst e)"
    and disj: "set (map fst (d @ [(k, v)])) \<inter> set (map fst e) = {}"
    by (auto simp: x)
  have "fold (\<lambda>(k, v) acc. dict_set acc k v) e (d @ [(k, v)]) = (d @ [(k, v)]) @ e"
    by (rule Cons.IH [OF de disj])
  then show ?case by (simp add: x dict_set_fresh [OF fresh])
qed

lemma dict_of_items_distinct: "distinct (map fst xs) \<Longrightarrow> dict_of_items xs = xs"
  using dict_update_fresh [of xs "[]"] by (simp add: dict_of_items_def)

lemma map_of_rev_distinct: "distinct (map fst e) \<Longrightarrow> map_of (rev e) = map_of e"
  by (rule ext) (metis distinct_rev map_of_inject_set rev_map set_rev)

lemma set_select_keys:
  "set (select_keys src ks) = {(k, v). k \<in> set ks \<and> map_of src k = Some v}"
  by (induction ks) (auto simp: select_keys_def dict_get_def split: option.splits)

lemma keys_select_keys:
  "map fst (select_keys src ks) = filter (\<lambda>k. k \<in> dom (map_of src)) ks"
  by (induction ks) (auto simp: select_keys_def dict_get_def split: option.splits)

lemma length_chunks_from:
  "0 < n \<Longrightarrow> length (chunks_from n i xs) = (length xs - i + n - 1) div n"
proof (induction n i xs rule: chunks_from.induct)
  case (1 n i items)
  show ?case
  proof (cases "length items \<le> i")
    case True
    with "1.prems" show ?thesis by (simp add: chunks_from.simps)
  next
    case False
    with "1.prems" have IH: "length (chunks_from n (i + n) items) = (length items - (i + n) + n - 1) div n"
      using "1.IH" by simp
    from False obtain m where m: "length items - i = Suc m" by (cases "length items - i") auto
    have "(Suc m + n - 1) div n = Suc ((Suc m - n + n - 1) div n)"
    proof (cases "n \<le> Suc m")
      case True
      then have "Suc m - n + n - 1 = m" by simp
      moreover have "(m + n) div n = Suc (m div n)" using "1.prems" div_add_self2 [of n m] by simp
      ultimately show ?thesis by simp
    next
      case False
      then have "Suc m - n + n - 1 = n - 1" and "m < n" by simp_all
      moreover have "(m + n) div n = Suc (m div n)" using "1.prems" div_add_self2 [of n m] by simp
      ultimately show ?thesis using "1.prems" by simp
    qed
    moreover from m have "length items - (i + n) = Suc m - n" by arith
    ultimately show ?thesis using False "1.prems" IH m
      by (simp add: chunks_from.simps [of n i items])
  qed
qed

lemma nth_chunks_from:
  "0 < n \<Longrightarrow> distinct (map fst xs) \<Longrightarrow> j < length (chunks_from n i xs) \<Longrightarrow>
     chunks_from n i xs ! j = take n (drop (i + j * n) xs)"
proof (induction n i xs arbitrary: j rule: chunks_from.induct)
  case (1 n i items)
  from "1.prems"(3) have lt: "\<not> length items \<le> i"
    by (auto simp: chunks_from.simps [of n i items] split: if_splits)
  have d: "distinct (map fst (take n (drop i items)))"
    using "1.prems"(2) by (simp add: distinct_take distinct_drop take_map [symmetric] drop_map [symmetric])
  show ?case
  proof (cases j)
    case 0
    with lt "1.prems" d show ?thesis
      by (simp add: chunks_from.simps [of n i items] dict_of_items_distinct)
  next
    case (Suc j')
    with lt "1.prems" have "j' < length (chunks_from n (i + n) items)"
      by (simp add: chunks_from.simps [of n i items])
    with "1.IH" [of j'] lt "1.prems" have "chunks_from n (i + n) items ! j' = take n (drop (i + n + j' * n) items)"
      by simp
    with lt "1.prems" Suc show ?thesis
      by (simp add: chunks_from.simps [of n i items] add.assoc)
  qed
qed

lemma concat_chunks_from:
  "0 < n \<Longrightarrow> distinct (map fst xs) \<Longrightarrow> concat (chunks_from n i xs) = drop i xs"
proof (induction n i xs rule: chunks_from.induct)
  case (1 n i items)
  show ?case
  proof (cases "length items \<le> i")
    case True
    then show ?thesis by (simp add: chunks_from.simps)
  next
    case False
    have d: "distinct (map fst (take n (drop i items)))"
      using "1.prems"(2) by (simp add: distinct_take distinct_drop take_map [symmetric] drop_map [symmetric])
    have "concat (chunks_from n (i + n) items) = drop (i + n) items"
      using "1.IH" False "1.prems" by simp
    then have "concat (chunks_from n i items) = take n (drop i items) @ drop n (drop i items)"
      using False "1.prems" d
      by (simp add: chunks_from.simps [of n i items] dict_of_items_distinct add.commute)
    then show ?thesis by (simp add: drop_drop [symmetric] del: drop_drop)
  qed
qed

text \<open>
  Claim C6. For a backlog table and a chunk size \<open>N > 0\<close>, \<open>create_chunks\<close> returns
  \<open>ceil(|backlog| / N)\<close> chunks; chunk \<open>j\<close> (counted from 0) is the slice of the backlog's
  entries from position \<open>j * N\<close> of length at most \<open>N\<close>, and the chunks put together in
  order are the backlog. The chunks are a function of the backlog's entry order and \<open>N\<close>
  alone, so two partitionings of the same backlog with the same \<open>N\<close> agree.
\<close>

theorem create_chunks_partition:
  assumes "0 < N" and "is_dict backlog"
  shows "\<exists>cs. create_chunks N backlog = Inr cs
           \<and> int (length cs) = (int (length backlog) + N - 1) div N
           \<and> concat cs = backlog
           \<and> (\<forall>j < length cs. cs ! j = take (nat N) (drop (j * nat N) backlog))"
proof -
  let ?n = "nat N"
  let ?cs = "chunks_from ?n 0 backlog"
  from assms have n: "0 < ?n" and d: "distinct (map fst backlog)"
    by (simp_all add: is_dict_def dict_keys_def)
  have c: "create_chunks N backlog = Inr ?cs"
    using assms(1) by (simp add: create_chunks_def)
  have "length ?cs = (length backlog + ?n - 1) div ?n"
    using length_chunks_from [OF n, of 0 backlog] by simp
  then have "int (length ?cs) = int ((length backlog + ?n - 1) div ?n)" by simp
  also have "\<dots> = (int (length backlog) + N - 1) div N"
    using assms(1) n by (simp add: zdiv_int of_nat_diff)
  finally have l: "int (length ?cs) = (int (length backlog) + N - 1) div N" .
  have cc: "concat ?cs = backlog"
    using concat_chunks_from [OF n d, of 0] by simp
  have nth: "\<forall>j < length ?cs. ?cs ! j = take ?n (drop (j * ?n) backlog)"
    using nth_chunks_from [OF n d, of _ 0] by simp
  from c l cc nth show ?thesis by blast
qed

text \<open>
  The example of the claim: a backlog of three entries with chunk size 2.
\<close>

theorem create_chunks_partition_witness:
  "(0::int) < 2 \<and> is_dict [(''k1'',''v1''),(''k2'',''v2''),(''k3'',''v3'')]
   \<and> create_chunks 2 [(''k1'',''v1''),(''k2'',''v2''),(''k3'',''v3'')]
       = Inr [[(''k1'',''v1''),(''k2'',''v2'')], [(''k3'',''v3'')]]"
proof -
  have h1: "(0::int) < 2" by simp
  have h2: "is_dict [(''k1'',''v1''),(''k2'',''v2''),(''k3'',''v3'')]"
    by (simp add: is_dict_def dict_keys_def)
  from create_chunks_partition [OF h1 h2] obtain cs where
    cs: "create_chunks 2 [(''k1'',''v1''),(''k2'',''v2''),(''k3'',''v3'')] = Inr cs"
    and len: "int (length cs) = (int (length [(''k1'',''v1''),(''k2'',''v2''),(''k3'',''v3'')]) + 2 - 1) div 2"
    and nth: "\<forall>j < length cs. cs ! j = take (nat 2) (drop (j * nat 2) [(''k1'',''v1''),(''k2'',''v2''),(''k3'',''v3'')])"
    by blast
  from len have l2: "length cs = 2" by simp
  with nth have "cs ! 0 = [(''k1'',''v1''),(''k2'',''v2'')]" and "cs ! 1 = [(''k3'',''v3'')]"
    by simp_all
  with l2 have "cs = [[(''k1'',''v1''),(''k2'',''v2'')], [(''k3'',''v3'')]]"
    by (cases cs; cases "tl cs"; cases "tl (tl cs)") auto
  with cs h1 h2 show ?thesis by simp
qed

lemma is_dict_map_of: "is_dict d \<Longrightarrow> (dict_get d k = Some v) = ((k, v) \<in> set d)"
  by (simp add: is_dict_def dict_keys_def dict_get_def)

lemma dict_get_None: "(dict_get d k = None) = (k \<notin> set (dict_keys d))"
  by (simp add: dict_get_def dict_keys_def map_of_eq_None_iff)

text \<open>What \<^verbatim>\<open>a.update(b)\<close> leaves, for a table \<open>b\<close>.\<close>

lemma merge_facts:
  assumes "is_dict b"
  shows "set (dict_keys (dict_update a b)) = set (dict_keys a) \<union> set (dict_keys b)
       \<and> (\<forall>k \<in> set (dict_keys b). dict_get (dict_update a b) k = dict_get b k)
       \<and> (\<forall>k. k \<notin> set (dict_keys b) \<longrightarrow> dict_get (dict_update a b) k = dict_get a k)
       \<and> (is_dict a \<longrightarrow> is_dict (dict_update a b))"
proof -
  from assms have rb: "map_of (rev b) = map_of b"
    by (simp add: is_dict_def dict_keys_def map_of_rev_distinct)
  have m: "map_of (dict_update a b) = map_of a ++ map_of b"
    by (simp add: map_of_dict_update rb)
  have 1: "set (dict_keys (dict_update a b)) = set (dict_keys a) \<union> set (dict_keys b)"
    by (simp add: dict_keys_def set_keys_dict_update)
  have 2: "\<forall>k \<in> set (dict_keys b). dict_get (dict_update a b) k = dict_get b k"
    by (auto simp: dict_get_def dict_keys_def m map_add_def split: option.splits
             dest: weak_map_of_SomeI map_of_eq_None_iff [THEN iffD1])
  have 3: "\<forall>k. k \<notin> set (dict_keys b) \<longrightarrow> dict_get (dict_update a b) k = dict_get a k"
    by (auto simp: dict_get_def dict_keys_def m map_add_def map_of_eq_None_iff split: option.splits
             dest: map_of_SomeD intro: rev_image_eqI)
  have 4: "is_dict a \<longrightarrow> is_dict (dict_update a b)"
    by (simp add: is_dict_def dict_keys_def distinct_dict_update)
  from 1 2 3 4 show ?thesis by blast
qed

text \<open>
  Claim C7. \<open>merge(a, b)\<close> is \<^verbatim>\<open>a.update(b)\<close> (lines 404 and 268). Its keys are the keys
  of \<open>a\<close> and of \<open>b\<close>; every key of \<open>b\<close>, so every key present in both, maps to the value
  it has in \<open>b\<close>; every other key keeps the value it has in \<open>a\<close>.
\<close>

theorem merge_right_biased:
  assumes "is_dict b"
  shows "set (dict_keys (dict_update a b)) = set (dict_keys a) \<union> set (dict_keys b)
       \<and> (\<forall>k \<in> set (dict_keys b). dict_get (dict_update a b) k = dict_get b k)
       \<and> (\<forall>k. k \<notin> set (dict_keys b) \<longrightarrow> dict_get (dict_update a b) k = dict_get a k)
       \<and> (is_dict a \<longrightarrow> is_dict (dict_update a b))"
  using assms by (rule merge_facts)

text \<open>
  A merge with one colliding key.
\<close>

theorem merge_right_biased_witness:
  "is_dict [(''a.x'', ''new''), (''a.z'', ''z'')]
   \<and> dict_update [(''a.x'', ''old''), (''a.y'', ''y'')] [(''a.x'', ''new''), (''a.z'', ''z'')]
       = [(''a.x'', ''new''), (''a.y'', ''y''), (''a.z'', ''z'')]
   \<and> dict_get (dict_update [(''a.x'', ''old''), (''a.y'', ''y'')] [(''a.x'', ''new''), (''a.z'', ''z'')]) ''a.x''
       = dict_get [(''a.x'', ''new''), (''a.z'', ''z'')] ''a.x''"
proof -
  have h: "is_dict [(''a.x'', ''new''), (''a.z'', ''z'')]"
    by (simp add: is_dict_def dict_keys_def)
  have "''a.x'' \<in> set (dict_keys [(''a.x'', ''new''), (''a.z'', ''z'')])"
    by (simp add: dict_keys_def)
  with merge_right_biased [OF h, of "[(''a.x'', ''old''), (''a.y'', ''y'')]"]
  have "dict_get (dict_update [(''a.x'', ''old''), (''a.y'', ''y'')] [(''a.x'', ''new''), (''a.z'', ''z'')]) ''a.x''
       = dict_get [(''a.x'', ''new''), (''a.z'', ''z'')] ''a.x''"
    by blast
  moreover have "dict_update [(''a.x'', ''old''), (''a.y'', ''y'')] [(''a.x'', ''new''), (''a.z'', ''z'')]
       = [(''a.x'', ''new''), (''a.y'', ''y''), (''a.z'', ''z'')]"
    by (simp add: dict_update_def)
  ultimately show ?thesis using h by blast
qed

text \<open>The first-stage difference of \<open>a\<close> against a merge of \<open>a\<close> is empty.\<close>

lemma lang_diff_merge_empty: "lang_diff a (dict_update a b) = []"
proof -
  have "set (dict_keys a) - set (dict_keys (dict_update a b)) = {}"
    by (simp add: dict_keys_def set_keys_dict_update)
  then have "lang_diff a (dict_update a b) = select_keys a (sorted_list_of_set {})"
    unfolding lang_diff_def Let_def by (rule arg_cong)
  then show ?thesis by (simp add: select_keys_def)
qed

lemma set_lang_diff:
  assumes "is_dict a"
  shows "set (lang_diff a b) = {(k, v). (k, v) \<in> set a \<and> dict_get b k = None}"
proof -
  have "set (lang_diff a b) = {(k, v). k \<in> set (dict_keys a) - set (dict_keys b) \<and> map_of a k = Some v}"
    by (simp add: lang_diff_def set_select_keys Let_def)
  also have "\<dots> = {(k, v). (k, v) \<in> set a \<and> dict_get b k = None}"
    using is_dict_map_of [OF assms]
    by (auto simp: dict_get_def dict_keys_def map_of_eq_None_iff intro: rev_image_eqI)
  finally show ?thesis .
qed

lemma already_translated_keys:
  assumes "is_dict b"
  shows "(k \<in> set (map fst (filter (\<lambda>(k, v). truthy v) b))) = (\<exists>t. dict_get b k = Some t \<and> truthy t)"
  using is_dict_map_of [OF assms] by force

lemma set_untranslated_diff:
  assumes "is_dict a" and "is_dict b"
  shows "set (untranslated_diff a b)
       = {(k, v). (k, v) \<in> set a \<and> (case dict_get b k of None \<Rightarrow> True | Some t \<Rightarrow> \<not> truthy t)}"
proof -
  have "set (untranslated_diff a b)
      = {(k, v). k \<in> set (dict_keys a) - set (map fst (filter (\<lambda>(k, v). truthy v) b)) \<and> map_of a k = Some v}"
    by (simp add: untranslated_diff_def set_select_keys Let_def)
  also have "\<dots> = {(k, v). (k, v) \<in> set a \<and> \<not> (\<exists>t. dict_get b k = Some t \<and> truthy t)}"
    using is_dict_map_of [OF assms(1)] already_translated_keys [OF assms(2)]
    by (auto simp: dict_get_def dict_keys_def intro: rev_image_eqI)
  also have "\<dots> = {(k, v). (k, v) \<in> set a \<and> (case dict_get b k of None \<Rightarrow> True | Some t \<Rightarrow> \<not> truthy t)}"
    by (auto split: option.splits)
  finally show ?thesis .
qed

lemma sorted_keys_select:
  "sorted ks \<Longrightarrow> distinct ks \<Longrightarrow> sorted (dict_keys (select_keys src ks)) \<and> is_dict (select_keys src ks)"
  by (simp add: dict_keys_def is_dict_def keys_select_keys sorted_wrt_filter)

text \<open>
  Claim C3, as the code has it. The first-stage difference (\<^verbatim>\<open>extract_lang_diff\<close>) holds
  exactly the entries of \<open>a\<close> whose key is not a key of \<open>b\<close>; an empty value in \<open>b\<close> counts
  as present there. The second-stage difference (\<^verbatim>\<open>find_untranslated\<close>) holds exactly the
  entries of \<open>a\<close> whose key is not a key of \<open>b\<close> or maps to an empty value in \<open>b\<close>. Both
  results are tables sorted by key.
\<close>

theorem diff_stages:
  assumes "is_dict a" and "is_dict b"
  shows "set (lang_diff a b) = {(k, v). (k, v) \<in> set a \<and> dict_get b k = None}
       \<and> set (untranslated_diff a b)
           = {(k, v). (k, v) \<in> set a \<and> (case dict_get b k of None \<Rightarrow> True | Some t \<Rightarrow> \<not> truthy t)}
       \<and> sorted (dict_keys (lang_diff a b)) \<and> is_dict (lang_diff a b)
       \<and> sorted (dict_keys (untranslated_diff a b)) \<and> is_dict (untranslated_diff a b)"
proof -
  have "sorted (dict_keys (lang_diff a b)) \<and> is_dict (lang_diff a b)"
    unfolding lang_diff_def Let_def by (rule sorted_keys_select) simp_all
  moreover have "sorted (dict_keys (untranslated_diff a b)) \<and> is_dict (untranslated_diff a b)"
    unfolding untranslated_diff_def Let_def by (rule sorted_keys_select) simp_all
  ultimately show ?thesis
    using set_lang_diff [OF assms(1)] set_untranslated_diff [OF assms] by blast
qed

text \<open>
  Claim C3 as stated fails for the first stage: an entry of the source table whose key
  maps to an empty value in the target table is not in the first-stage difference.
\<close>

theorem lang_diff_empty_value_counterexample:
  "(''a'', ''Hello'') \<in> set [(''a'', ''Hello'')]
   \<and> dict_get [(''a'', '''')] ''a'' = Some '''' \<and> \<not> truthy ''''
   \<and> (''a'', ''Hello'') \<notin> set (lang_diff [(''a'', ''Hello'')] [(''a'', '''')])"
  by (simp add: lang_diff_def select_keys_def dict_keys_def dict_get_def truthy_def)

text \<open>
  Both differences on a target table that has one empty value.
\<close>

theorem diff_stages_witness:
  "is_dict [(''a.x'', ''Hello''), (''a.y'', ''World''), (''a.z'', ''Bye'')]
   \<and> is_dict [(''a.x'', ''hi''), (''a.z'', '''')]
   \<and> set (lang_diff [(''a.x'', ''Hello''), (''a.y'', ''World''), (''a.z'', ''Bye'')] [(''a.x'', ''hi''), (''a.z'', '''')])
       = {(''a.y'', ''World'')}
   \<and> set (untranslated_diff [(''a.x'', ''Hello''), (''a.y'', ''World''), (''a.z'', ''Bye'')] [(''a.x'', ''hi''), (''a.z'', '''')])
       = {(''a.y'', ''World''), (''a.z'', ''Bye'')}"
proof -
  let ?a = "[(''a.x'', ''Hello''), (''a.y'', ''World''), (''a.z'', ''Bye'')]"
  let ?b = "[(''a.x'', ''hi''), (''a.z'', '''')]"
  have h1: "is_dict ?a" and h2: "is_dict ?b"
    by (simp_all add: is_dict_def dict_keys_def)
  have "{(k, v). (k, v) \<in> set ?a \<and> dict_get ?b k = None} = {(''a.y'', ''World'')}"
    by (auto simp: dict_get_def)
  moreover have "{(k, v). (k, v) \<in> set ?a \<and> (case dict_get ?b k of None \<Rightarrow> True | Some t \<Rightarrow> \<not> truthy t)}
      = {(''a.y'', ''World''), (''a.z'', ''Bye'')}"
    by (auto simp: dict_get_def truthy_def)
  ultimately show ?thesis using diff_stages [OF h1 h2] h1 h2 by simp
qed

section \<open>Properties of the stages\<close>

lemma saved_append [simp]: "saved (xs @ ys) = saved xs @ saved ys"
  by (simp add: saved_def)

lemma calls_append [simp]: "calls (xs @ ys) = calls xs @ calls ys"
  by (simp add: calls_def)

lemma report_append [simp]: "report (xs @ ys) = report xs @ report ys"
  by (simp add: report_def)

lemma saved_simps [simp]: "saved [] = []" "saved (ev # tr) = saved_of ev @ saved tr"
  by (simp_all add: saved_def)

lemma calls_simps [simp]: "calls [] = []" "calls (ev # tr) = call_of ev @ calls tr"
  by (simp_all add: calls_def)

lemma report_simps [simp]:
  "report [] = []" "report (ev # tr) = (if stage_level ev then ev # report tr else report tr)"
  by (simp_all add: report_def)

lemma save_lines_append [simp]: "save_lines (xs @ ys) = save_lines xs @ save_lines ys"
  by (simp add: save_lines_def)

lemma save_lines_simps [simp]:
  "save_lines [] = []"
  "save_lines (ev # tr) = (if is_save_line ev then ev # save_lines tr else save_lines tr)"
  by (simp_all add: save_lines_def)

lemma is_save_line_save_line [simp]: "is_save_line (save_line e p data)"
  by (simp add: save_line_def)

lemma is_save_line_save_line_meta [simp]: "is_save_line (save_line_meta e m)"
  by (simp add: save_line_meta_def)

lemma trace_log [simp]: "trace (log l m w) = trace w @ [Log l m]"
  by (simp add: log_def emit_def)

lemma files_log [simp]: "files (log l m w) = files w"
  by (simp add: log_def emit_def)

lemma manifest_log [simp]: "manifest (log l m w) = manifest w"
  by (simp add: log_def emit_def)

lemma trace_emit [simp]: "trace (emit ev w) = trace w @ [ev]"
  by (simp add: emit_def)

lemma files_emit [simp]: "files (emit ev w) = files w"
  by (simp add: emit_def)

lemma manifest_emit [simp]: "manifest (emit ev w) = manifest w"
  by (simp add: emit_def)

text \<open>What \<open>call_gemini_cli\<close> returns does not depend on the world.\<close>

lemma call_gemini_cli_result: "fst (call_gemini_cli e c w) = gemini_answer e c"
  by (simp add: call_gemini_cli_def gemini_answer_def Let_def split: proc.splits payload.splits)

lemma call_gemini_cli_world:
  "files (snd (call_gemini_cli e c w)) = files w
   \<and> manifest (snd (call_gemini_cli e c w)) = manifest w
   \<and> saved (trace (snd (call_gemini_cli e c w))) = saved (trace w)
   \<and> save_lines (trace (snd (call_gemini_cli e c w))) = save_lines (trace w)
   \<and> calls (trace (snd (call_gemini_cli e c w))) = calls (trace w) @ [c]"
  by (simp add: call_gemini_cli_def Let_def split: proc.splits payload.splits)

text \<open>Whether \<^verbatim>\<open>update\<close> raises depends on the value alone.\<close>

lemma update_elements_raises: "snd (update_elements d els) = snd (update_elements d' els)"
proof (induction els arbitrary: d d')
  case Nil
  show ?case by simp
next
  case (Cons x els)
  show ?case
  proof (cases x)
    case (Pair k v)
    with Cons.IH [of "dict_set d k v" "dict_set d' k v"] show ?thesis by simp
  next
    case NotAPair
    then show ?thesis by simp
  qed
qed

lemma py_update_raises: "snd (py_update d v) = snd (py_update d' v)"
  by (cases v) (simp_all add: update_elements_raises [of d _ d'])

lemma save_json_trace: "trace (save_json e data p w) = trace w @ [save_line e p data]"
  by (simp add: save_json_def save_line_def write_file_def split: write_outcome.splits)

lemma saved_save_line:
  "saved_of (save_line e p data) = (if disk e p = WriteOk then [(p, data)] else [])"
  by (simp add: save_line_def)

lemma call_of_save_line [simp]: "call_of (save_line e p data) = []"
  by (simp add: save_line_def)

lemma stage_level_save_line [simp]: "\<not> stage_level (save_line e p data)"
  by (simp add: save_line_def)

lemma save_json_manifest [simp]: "manifest (save_json e data p w) = manifest w"
  by (simp add: save_json_def write_file_def split: write_outcome.splits)

lemma map_of_remove: "map_of (filter (\<lambda>(q, c). q \<noteq> p) fs) = (map_of fs)(p := None)"
  by (induction fs) (auto simp: fun_eq_iff)

lemma dict_get_put_file:
  "dict_get (put_file p f fs) q = (if q = p then f else dict_get fs q)"
  by (cases f) (simp_all add: put_file_def dict_get_def map_of_remove map_of_dict_set)

lemma save_json_files:
  "dict_get (files (save_json e data p w)) q =
     (if q = p then (case disk e p of WriteOk \<Rightarrow> Some (Intact data)
                     | OpenFails \<Rightarrow> dict_get (files w) p | DumpFails \<Rightarrow> Some Corrupt)
      else dict_get (files w) q)"
  by (simp add: save_json_def write_file_def dict_get_put_file split: write_outcome.splits)

text \<open>One pass of the loop body, as a step on the returned pair.\<close>

lemma translate_chunks_step:
  "\<not> i < s \<Longrightarrow>
   \<exists>w'. translate_chunks e s n i (c # rest) (td, w)
           = translate_chunks e s n (i + 1) rest (chunk_step e c td, w')
      \<and> calls (trace w') = calls (trace w) @ [c]
      \<and> manifest w' = manifest w
      \<and> (\<forall>q. \<not> is_progress q \<longrightarrow> dict_get (files w') q = dict_get (files w) q)
      \<and> save_lines (trace w')
          = save_lines (trace w)
            @ (if checkpointed e c then [save_line e (ProgressFile i) (chunk_step e c td)] else [])
      \<and> (saved (trace w') = saved (trace w)
          \<or> saved (trace w') = saved (trace w) @ [(ProgressFile i, chunk_step e c td)])"
proof -
  assume ni: "\<not> i < s"
  let ?w0 = "log INFO ''processing chunk'' w"
  obtain r w1 where call: "call_gemini_cli e c ?w0 = (r, w1)" by (cases "call_gemini_cli e c ?w0")
  from call_gemini_cli_world [where e = e and c = c and w = ?w0] call
  have w1: "files w1 = files w" "manifest w1 = manifest w" "saved (trace w1) = saved (trace w)"
    "save_lines (trace w1) = save_lines (trace w)" "calls (trace w1) = calls (trace w) @ [c]"
    by simp_all
  from call_gemini_cli_result [where e = e and c = c and w = ?w0] call
  have ans: "gemini_answer e c = r" by simp
  let ?skip = "\<lambda>u. log INFO ''chunk skipped, original data is used''
                     (log ERROR ''error while processing chunk'' u)"
  have skipped: "calls (trace (?skip w1)) = calls (trace w) @ [c]" "manifest (?skip w1) = manifest w"
    "\<forall>q. \<not> is_progress q \<longrightarrow> dict_get (files (?skip w1)) q = dict_get (files w) q"
    "save_lines (trace (?skip w1)) = save_lines (trace w)" "saved (trace (?skip w1)) = saved (trace w)"
    using w1 by simp_all
  show ?thesis
  proof (cases r)
    case (Inl err)
    with ans have st: "chunk_step e c td = dict_update td c" and cp: "\<not> checkpointed e c"
      by (simp_all add: chunk_step_def checkpointed_def)
    have "translate_chunks e s n i (c # rest) (td, w)
            = translate_chunks e s n (i + 1) rest (chunk_step e c td, ?skip w1)"
      using ni call Inl st by simp
    with skipped cp show ?thesis by auto
  next
    case (Inr v)
    obtain td' x where up: "py_update td v = (td', x)" by (cases "py_update td v")
    from py_update_raises [of td v "[]"] up have x: "snd (py_update [] v) = x" by simp
    show ?thesis
    proof (cases x)
      case None
      with ans Inr up x have st: "chunk_step e c td = td'" and cp: "checkpointed e c"
        by (simp_all add: chunk_step_def checkpointed_def)
      let ?w2 = "save_json e td' (ProgressFile i) w1"
      let ?w' = "if i < n then emit Slept (log INFO ''waiting'' ?w2) else ?w2"
      have "translate_chunks e s n i (c # rest) (td, w)
              = translate_chunks e s n (i + 1) rest (chunk_step e c td, ?w')"
        using ni call Inr up None st by (simp add: Let_def)
      moreover have "calls (trace ?w') = calls (trace w) @ [c]"
        using w1 by (simp add: save_json_trace)
      moreover have "manifest ?w' = manifest w"
        using w1 by simp
      moreover have "\<forall>q. \<not> is_progress q \<longrightarrow> dict_get (files ?w') q = dict_get (files w) q"
        using w1 by (auto simp: save_json_files)
      moreover have "save_lines (trace ?w')
            = save_lines (trace w) @ [save_line e (ProgressFile i) (chunk_step e c td)]"
        using w1 st by (simp add: save_json_trace)
      moreover have "saved (trace ?w') = saved (trace w)
            \<or> saved (trace ?w') = saved (trace w) @ [(ProgressFile i, chunk_step e c td)]"
        using w1 st by (simp add: save_json_trace saved_save_line)
      ultimately show ?thesis using cp by auto
    next
      case (Some err)
      with ans Inr up x have st: "chunk_step e c td = dict_update td' c" and cp: "\<not> checkpointed e c"
        by (simp_all add: chunk_step_def checkpointed_def)
      have "translate_chunks e s n i (c # rest) (td, w)
              = translate_chunks e s n (i + 1) rest (chunk_step e c td, ?skip w1)"
        using ni call Inr up Some st by simp
      with skipped cp show ?thesis by auto
    qed
  qed
qed

lemma translate_chunks_skip:
  "i < s \<Longrightarrow> translate_chunks e s n i (c # rest) (td, w) = translate_chunks e s n (i + 1) rest (td, w)"
  by simp

lemma translate_chunks_table:
  "fst (translate_chunks e s n i chunks (td, w))
     = fold (chunk_step e) (drop (nat (s - i)) chunks) td"
proof (induction chunks arbitrary: i td w)
  case Nil
  show ?case by simp
next
  case (Cons c rest)
  show ?case
  proof (cases "i < s")
    case True
    then have "nat (s - i) = Suc (nat (s - (i + 1)))" by simp
    with True Cons.IH [of "i + 1" td w] show ?thesis by (simp del: translate_chunks.simps add: translate_chunks_skip)
  next
    case False
    then have z: "nat (s - i) = 0" "nat (s - (i + 1)) = 0" by simp_all
    from translate_chunks_step [OF False, where e = e and n = n and c = c and rest = rest and td = td and w = w] obtain w' where
      "translate_chunks e s n i (c # rest) (td, w)
           = translate_chunks e s n (i + 1) rest (chunk_step e c td, w')" by blast
    with Cons.IH [of "i + 1" "chunk_step e c td" w'] z show ?thesis by simp
  qed
qed

lemma translate_chunks_calls:
  "calls (trace (snd (translate_chunks e s n i chunks (td, w))))
     = calls (trace w) @ drop (nat (s - i)) chunks"
proof (induction chunks arbitrary: i td w)
  case Nil
  show ?case by simp
next
  case (Cons c rest)
  show ?case
  proof (cases "i < s")
    case True
    then have "nat (s - i) = Suc (nat (s - (i + 1)))" by simp
    with True Cons.IH [of "i + 1" td w] show ?thesis by (simp del: translate_chunks.simps add: translate_chunks_skip)
  next
    case False
    then have z: "nat (s - i) = 0" "nat (s - (i + 1)) = 0" by simp_all
    from translate_chunks_step [OF False, where e = e and n = n and c = c and rest = rest and td = td and w = w] obtain w' where
      "translate_chunks e s n i (c # rest) (td, w)
           = translate_chunks e s n (i + 1) rest (chunk_step e c td, w')"
      "calls (trace w') = calls (trace w) @ [c]" by blast
    with Cons.IH [of "i + 1" "chunk_step e c td" w'] z show ?thesis by simp
  qed
qed

lemma translate_chunks_frame:
  "manifest (snd (translate_chunks e s n i chunks (td, w))) = manifest w
   \<and> (\<forall>q. \<not> is_progress q \<longrightarrow>
         dict_get (files (snd (translate_chunks e s n i chunks (td, w)))) q = dict_get (files w) q)"
proof (induction chunks arbitrary: i td w)
  case Nil
  show ?case by simp
next
  case (Cons c rest)
  show ?case
  proof (cases "i < s")
    case True
    with Cons.IH [of "i + 1" td w] show ?thesis by (simp del: translate_chunks.simps add: translate_chunks_skip)
  next
    case False
    from translate_chunks_step [OF False, where e = e and n = n and c = c and rest = rest and td = td and w = w] obtain w' where
      "translate_chunks e s n i (c # rest) (td, w)
           = translate_chunks e s n (i + 1) rest (chunk_step e c td, w')"
      "manifest w' = manifest w"
      "\<forall>q. \<not> is_progress q \<longrightarrow> dict_get (files w') q = dict_get (files w) q" by blast
    with Cons.IH [of "i + 1" "chunk_step e c td" w'] show ?thesis by simp
  qed
qed

lemma translate_chunks_save_lines:
  "save_lines (trace (snd (translate_chunks e s n i chunks (td, w))))
     = save_lines (trace w) @ checkpoint_lines e s i chunks td"
proof (induction chunks arbitrary: i td w)
  case Nil
  show ?case by simp
next
  case (Cons c rest)
  show ?case
  proof (cases "i < s")
    case True
    with Cons.IH [of "i + 1" td w] show ?thesis by (simp del: translate_chunks.simps add: translate_chunks_skip)
  next
    case False
    from translate_chunks_step [OF False, where e = e and n = n and c = c and rest = rest and td = td and w = w] obtain w' where
      "translate_chunks e s n i (c # rest) (td, w)
           = translate_chunks e s n (i + 1) rest (chunk_step e c td, w')"
      "save_lines (trace w')
          = save_lines (trace w)
            @ (if checkpointed e c then [save_line e (ProgressFile i) (chunk_step e c td)] else [])"
      by blast
    with Cons.IH [of "i + 1" "chunk_step e c td" w'] False show ?thesis by simp
  qed
qed

text \<open>
  Without skipped chunks, a checkpoint saved for chunk \<open>j\<close> holds the cumulative table
  after the chunks up to \<open>j\<close>.
\<close>

lemma translate_chunks_saved:
  "s \<le> i \<Longrightarrow> (ProgressFile j, t) \<in> set (saved (trace (snd (translate_chunks e s n i chunks (td, w))))) \<Longrightarrow>
   (ProgressFile j, t) \<in> set (saved (trace w))
   \<or> (i \<le> j \<and> j < i + int (length chunks)
       \<and> t = fold (chunk_step e) (take (Suc (nat (j - i))) chunks) td)"
proof (induction chunks arbitrary: i td w)
  case Nil
  then show ?case by simp
next
  case (Cons c rest)
  from Cons.prems(1) have ni: "\<not> i < s" by simp
  let ?td = "chunk_step e c td"
  from translate_chunks_step [OF ni, where e = e and n = n and c = c and rest = rest and td = td and w = w] obtain w' where
    step: "translate_chunks e s n i (c # rest) (td, w) = translate_chunks e s n (i + 1) rest (?td, w')"
    and sv: "saved (trace w') = saved (trace w) \<or> saved (trace w') = saved (trace w) @ [(ProgressFile i, ?td)]"
    by blast
  from Cons.prems(2) step
  have "(ProgressFile j, t) \<in> set (saved (trace (snd (translate_chunks e s n (i + 1) rest (?td, w')))))"
    by simp
  with Cons.IH [of "i + 1" ?td w'] Cons.prems(1)
  have "(ProgressFile j, t) \<in> set (saved (trace w'))
        \<or> (i + 1 \<le> j \<and> j < i + 1 + int (length rest)
            \<and> t = fold (chunk_step e) (take (Suc (nat (j - (i + 1)))) rest) ?td)"
    by simp
  then show ?case
  proof
    assume "(ProgressFile j, t) \<in> set (saved (trace w'))"
    with sv have "(ProgressFile j, t) \<in> set (saved (trace w)) \<or> (j = i \<and> t = ?td)" by auto
    then show ?thesis by auto
  next
    assume a: "i + 1 \<le> j \<and> j < i + 1 + int (length rest)
            \<and> t = fold (chunk_step e) (take (Suc (nat (j - (i + 1)))) rest) ?td"
    then have "nat (j - i) = Suc (nat (j - (i + 1)))" by arith
    with a show ?thesis by simp
  qed
qed

lemma unlink_all_frame:
  "\<forall>f \<in> set fs. is_progress f \<Longrightarrow>
   manifest (unlink_all e fs w) = manifest w
   \<and> (\<forall>q. \<not> is_progress q \<longrightarrow> dict_get (files (unlink_all e fs w)) q = dict_get (files w) q)
   \<and> (\<exists>tr. trace (unlink_all e fs w) = trace w @ tr \<and> saved tr = [] \<and> calls tr = [] \<and> report tr = [] \<and> save_lines tr = [])"
proof (induction fs arbitrary: w)
  case Nil
  show ?case by simp
next
  case (Cons f fs)
  show ?case
  proof (cases "unlink_fails e f")
    case True
    then have "trace (unlink_all e (f # fs) w) = trace w @ [CleanupFailed]" by simp
    with True show ?thesis by simp
  next
    case False
    let ?w = "emit (Removed f) (w\<lparr>files := put_file f None (files w)\<rparr>)"
    from Cons.prems have pf: "is_progress f" and rest: "\<forall>f \<in> set fs. is_progress f" by simp_all
    from Cons.IH [OF rest, of ?w] obtain tr where
      m: "manifest (unlink_all e fs ?w) = manifest ?w"
      and fr: "\<forall>q. \<not> is_progress q \<longrightarrow> dict_get (files (unlink_all e fs ?w)) q = dict_get (files ?w) q"
      and tr: "trace (unlink_all e fs ?w) = trace ?w @ tr" "saved tr = []" "calls tr = []" "report tr = []" "save_lines tr = []"
      by blast
    have u: "unlink_all e (f # fs) w = unlink_all e fs ?w" using False by simp
    have "\<forall>q. \<not> is_progress q \<longrightarrow> dict_get (files ?w) q = dict_get (files w) q"
      using pf by (auto simp: dict_get_put_file)
    with fr have 1: "\<forall>q. \<not> is_progress q \<longrightarrow> dict_get (files (unlink_all e (f # fs) w)) q = dict_get (files w) q"
      by (simp add: u)
    have 2: "manifest (unlink_all e (f # fs) w) = manifest w" using m by (simp add: u)
    have "trace (unlink_all e (f # fs) w) = trace w @ (Removed f # tr)" unfolding u using tr(1) by simp
    moreover have "saved (Removed f # tr) = []" "calls (Removed f # tr) = []" "report (Removed f # tr) = []"
      "save_lines (Removed f # tr) = []"
      using tr by simp_all
    ultimately have 3: "\<exists>tr. trace (unlink_all e (f # fs) w) = trace w @ tr \<and> saved tr = [] \<and> calls tr = [] \<and> report tr = [] \<and> save_lines tr = []"
      by blast
    from 1 2 3 show ?thesis by blast
  qed
qed

lemma cleanup_progress_files_frame:
  "manifest (cleanup_progress_files e w) = manifest w
   \<and> (\<forall>q. \<not> is_progress q \<longrightarrow> dict_get (files (cleanup_progress_files e w)) q = dict_get (files w) q)
   \<and> (\<exists>tr. trace (cleanup_progress_files e w) = trace w @ tr \<and> saved tr = [] \<and> calls tr = [] \<and> report tr = [] \<and> save_lines tr = [])"
proof (cases "filter is_progress (dict_keys (files w)) = []")
  case True
  then have "cleanup_progress_files e w = w" by (simp add: cleanup_progress_files_def)
  then show ?thesis by simp
next
  case False
  let ?fs = "filter is_progress (dict_keys (files w))"
  let ?w = "emit CleanupStarted w"
  have c: "cleanup_progress_files e w = unlink_all e ?fs ?w"
    using False by (simp add: cleanup_progress_files_def)
  have "\<forall>f \<in> set ?fs. is_progress f" by simp
  from unlink_all_frame [OF this, of e ?w] obtain tr where
    m: "manifest (unlink_all e ?fs ?w) = manifest ?w"
    and fr: "\<forall>q. \<not> is_progress q \<longrightarrow> dict_get (files (unlink_all e ?fs ?w)) q = dict_get (files ?w) q"
    and tr: "trace (unlink_all e ?fs ?w) = trace ?w @ tr" "saved tr = []" "calls tr = []" "report tr = []" "save_lines tr = []"
    by blast
  have "trace (cleanup_progress_files e w) = trace w @ (CleanupStarted # tr)" using tr(1) by (simp add: c)
  moreover have "saved (CleanupStarted # tr) = []" "calls (CleanupStarted # tr) = []" "report (CleanupStarted # tr) = []"
    "save_lines (CleanupStarted # tr) = []"
    using tr by simp_all
  ultimately have "\<exists>tr. trace (cleanup_progress_files e w) = trace w @ tr \<and> saved tr = [] \<and> calls tr = [] \<and> report tr = [] \<and> save_lines tr = []"
    by blast
  with m fr show ?thesis by (simp add: c)
qed

lemma resume_from_fst:
  "fst (resume_from r w) =
     (case r of None \<Rightarrow> ([], 1)
      | Some k \<Rightarrow>
          if 1 < k then
            (case dict_get (files w) (ProgressFile (k - 1)) of
               None \<Rightarrow> ([], 1) | Some Corrupt \<Rightarrow> ([], k) | Some (Intact t) \<Rightarrow> (t, k))
          else ([], 1))"
  by (auto simp: resume_from_def file_exists_def load_json_def Let_def
           split: option.splits stored.splits)

lemma resume_from_frame:
  "files (snd (resume_from r w)) = files w
   \<and> manifest (snd (resume_from r w)) = manifest w
   \<and> saved (trace (snd (resume_from r w))) = saved (trace w)
   \<and> save_lines (trace (snd (resume_from r w))) = save_lines (trace w)
   \<and> calls (trace (snd (resume_from r w))) = calls (trace w)"
  by (auto simp: resume_from_def file_exists_def load_json_def Let_def
           split: option.splits stored.splits)

lemma resume_from_fst_files: "files w' = files w \<Longrightarrow> fst (resume_from r w') = fst (resume_from r w)"
  by (simp add: resume_from_fst split: option.splits)

text \<open>A run of the translation stage on a backlog that is not empty.\<close>

lemma auto_translate_run:
  assumes latest: "latest_file e ''all_untranslated'' = Some f"
    and src: "dict_get (files w) f = Some (Intact data)"
    and ne: "data \<noteq> []"
    and ch: "create_chunks (translation_chunk_size e) data = Inr chunks"
    and rs: "fst (resume_from r w) = (init, start)"
  shows "\<exists>wd. auto_translate e r w = Inr wd
    \<and> dict_get (files wd) (TranslatedFile (date_str e))
        = (case disk e (TranslatedFile (date_str e)) of
             WriteOk \<Rightarrow> Some (Intact (fold (chunk_step e)
                                        (drop (nat (start - 1)) chunks) init))
           | OpenFails \<Rightarrow> dict_get (files w) (TranslatedFile (date_str e))
           | DumpFails \<Rightarrow> Some Corrupt)
    \<and> calls (trace wd) = calls (trace w) @ drop (nat (start - 1)) chunks
    \<and> Log INFO ''all translation finished'' \<in> set (trace wd)
    \<and> (start \<le> 1 \<longrightarrow> (\<forall>j t. (ProgressFile j, t) \<in> set (saved (trace wd)) \<longrightarrow>
          (ProgressFile j, t) \<in> set (saved (trace w))
          \<or> (1 \<le> j \<and> j \<le> int (length chunks)
              \<and> t = fold (chunk_step e) (take (nat j) chunks) init)))
    \<and> save_lines (trace wd)
        = save_lines (trace w) @ checkpoint_lines e start 1 chunks init
          @ [save_line e (TranslatedFile (date_str e))
               (fold (chunk_step e) (drop (nat (start - 1)) chunks) init)]"
proof -
  let ?out = "TranslatedFile (date_str e)"
  let ?step = "chunk_step e"
  let ?w0 = "log INFO ''step 3: automatic translation starts'' w"
  let ?w1 = "log INFO ''split into chunks''
               (log INFO ''total number of items''
                 (log INFO ''output file'' (log INFO ''input file'' ?w0)))"
  have ld: "load_json f ?w0 = (Some data, ?w0)"
    using src by (simp add: load_json_def)
  have "fst (resume_from r ?w1) = (init, start)"
    using rs resume_from_fst_files [of ?w1 w r] by simp
  then obtain w2 where r2: "resume_from r ?w1 = ((init, start), w2)"
    by (cases "resume_from r ?w1") simp
  from resume_from_frame [of r ?w1] r2
  have w2: "files w2 = files w" "saved (trace w2) = saved (trace w)" "calls (trace w2) = calls (trace w)"
    "save_lines (trace w2) = save_lines (trace w)"
    by simp_all
  obtain td w3 where lp: "translate_chunks e start (int (length chunks)) 1 chunks (init, w2) = (td, w3)"
    by (cases "translate_chunks e start (int (length chunks)) 1 chunks (init, w2)")
  from translate_chunks_table [of e start "int (length chunks)" 1 chunks init w2] lp
  have td: "td = fold ?step (drop (nat (start - 1)) chunks) init" by simp
  from translate_chunks_calls [of e start "int (length chunks)" 1 chunks init w2] lp w2
  have c3: "calls (trace w3) = calls (trace w) @ drop (nat (start - 1)) chunks" by simp
  from translate_chunks_frame [of e start "int (length chunks)" 1 chunks init w2] lp w2
  have f3: "dict_get (files w3) ?out = dict_get (files w) ?out" by simp
  let ?w4 = "save_json e td ?out w3"
  let ?w5 = "log INFO ''all translation finished'' ?w4"
  let ?wd = "cleanup_progress_files e ?w5"
  have run: "auto_translate e r w = Inr ?wd"
    using latest ld ne ch r2 lp by (simp add: auto_translate_def Let_def)
  from cleanup_progress_files_frame [of e ?w5] obtain tr where
    fr: "\<forall>q. \<not> is_progress q \<longrightarrow> dict_get (files ?wd) q = dict_get (files ?w5) q"
    and tr: "trace ?wd = trace ?w5 @ tr" "saved tr = []" "calls tr = []" "save_lines tr = []"
    by blast
  from translate_chunks_save_lines [of e start "int (length chunks)" 1 chunks init w2] lp w2
  have s3: "save_lines (trace w3) = save_lines (trace w) @ checkpoint_lines e start 1 chunks init"
    by simp
  have 5: "save_lines (trace ?wd)
        = save_lines (trace w) @ checkpoint_lines e start 1 chunks init
          @ [save_line e ?out (fold ?step (drop (nat (start - 1)) chunks) init)]"
    using tr s3 td by (simp add: save_json_trace)
  have 1: "dict_get (files ?wd) ?out
        = (case disk e ?out of
             WriteOk \<Rightarrow> Some (Intact (fold ?step (drop (nat (start - 1)) chunks) init))
           | OpenFails \<Rightarrow> dict_get (files w) ?out
           | DumpFails \<Rightarrow> Some Corrupt)"
    using fr f3 td by (simp add: save_json_files split: write_outcome.splits)
  have 2: "calls (trace ?wd) = calls (trace w) @ drop (nat (start - 1)) chunks"
    using tr c3 by (simp add: save_json_trace)
  have 3: "Log INFO ''all translation finished'' \<in> set (trace ?wd)"
    using tr(1) by simp
  have 4: "start \<le> 1 \<longrightarrow> (\<forall>j t. (ProgressFile j, t) \<in> set (saved (trace ?wd)) \<longrightarrow>
          (ProgressFile j, t) \<in> set (saved (trace w))
          \<or> (1 \<le> j \<and> j \<le> int (length chunks) \<and> t = fold ?step (take (nat j) chunks) init))"
  proof (intro impI allI)
    fix j t
    assume s1: "start \<le> 1" and mem: "(ProgressFile j, t) \<in> set (saved (trace ?wd))"
    from mem tr have "(ProgressFile j, t) \<in> set (saved (trace w3))"
      by (auto simp: save_json_trace saved_save_line split: if_splits)
    with lp have "(ProgressFile j, t)
        \<in> set (saved (trace (snd (translate_chunks e start (int (length chunks)) 1 chunks (init, w2)))))"
      by simp
    from translate_chunks_saved [OF s1 this] w2
    have "(ProgressFile j, t) \<in> set (saved (trace w))
        \<or> (1 \<le> j \<and> j < 1 + int (length chunks) \<and> t = fold ?step (take (Suc (nat (j - 1))) chunks) init)"
      by simp
    moreover have "1 \<le> j \<Longrightarrow> Suc (nat (j - 1)) = nat j" by arith
    ultimately show "(ProgressFile j, t) \<in> set (saved (trace w))
          \<or> (1 \<le> j \<and> j \<le> int (length chunks) \<and> t = fold ?step (take (nat j) chunks) init)"
      by auto
  qed
  from run 1 2 3 4 5 show ?thesis by blast
qed

lemmas run_defs = auto_translate_def load_json_def log_def emit_def dict_get_def
  create_chunks_def chunks_from.simps dict_of_items_def dict_update_def resume_from_def
  call_gemini_cli_def save_json_def write_file_def put_file_def cleanup_progress_files_def
  dict_keys_def file_exists_def Let_def

lemmas example_defs = example_env_def example_gemini_def world_with_backlog_def

text \<open>
  Claim C9. When the latest backlog artifact loads as a table with no entries, the
  translation stage returns without an exception; it logs its start and the line that
  there is nothing to translate, both at level info, calls the translation command at no
  time and writes no file.
\<close>

theorem auto_translate_empty_backlog:
  assumes "latest_file e ''all_untranslated'' = Some f"
    and "dict_get (files w) f = Some (Intact [])"
  shows "auto_translate e r w
           = Inr (w\<lparr>trace := trace w @ [Log INFO ''step 3: automatic translation starts'',
                                         Log INFO ''zero keys to translate'']\<rparr>)"
  using assms by (simp add: auto_translate_def load_json_def log_def emit_def)

text \<open>
  A run on an empty backlog.
\<close>

theorem auto_translate_empty_backlog_witness:
  "latest_file example_env ''all_untranslated'' = Some (UntranslatedFile ''261105'')
   \<and> dict_get (files (world_with_backlog [])) (UntranslatedFile ''261105'') = Some (Intact [])
   \<and> auto_translate example_env None (world_with_backlog [])
       = Inr \<lparr>files = [(UntranslatedFile ''261105'', Intact [])], manifest = None,
              trace = [Log INFO ''step 3: automatic translation starts'',
                       Log INFO ''zero keys to translate'']\<rparr>"
proof -
  have h1: "latest_file example_env ''all_untranslated'' = Some (UntranslatedFile ''261105'')"
    by (simp add: example_env_def)
  have h2: "dict_get (files (world_with_backlog [])) (UntranslatedFile ''261105'') = Some (Intact [])"
    by (simp add: world_with_backlog_def dict_get_def)
  from auto_translate_empty_backlog [OF h1 h2, of None] h1 h2 show ?thesis
    by (simp add: world_with_backlog_def)
qed

text \<open>
  Claim C2 on a backlog of three chunks whose second chunk makes the translation command
  exit with code 1: the \<^verbatim>\<open>except\<close> branch stores the chunk's own entries and saves nothing,
  so the run writes the checkpoints 1 and 3 and no checkpoint 2.
\<close>

theorem failed_chunk_leaves_no_checkpoint:
  "map_sum id (\<lambda>w. map fst (saved (trace w)))
     (auto_translate example_env None
        (world_with_backlog [(''k1'', ''v1''), (''k2'', ''v2''), (''k3'', ''v3'')]))
   = Inr [ProgressFile 1, ProgressFile 3, TranslatedFile ''261106'']"
  by (simp add: run_defs example_defs)

text \<open>
  Where the loop body falls back: when the command cannot be started or exits with a
  non-zero code, when its output holds no JSON block or a JSON text that does not parse,
  and when the parsed value is a number, a truth value or \<^verbatim>\<open>null\<close>, the chunk's own entries
  are merged into the cumulative table.
\<close>

lemma chunk_step_fallback:
  assumes "gemini e chunk = SpawnFails
           \<or> (\<exists>returncode out. gemini e chunk = Exited returncode out
                  \<and> (returncode \<noteq> 0 \<or> out = NoJson \<or> out = Malformed \<or> out = Parsed JScalar))"
  shows "chunk_step e chunk td = dict_update td chunk"
  using assms by (auto simp: chunk_step_def gemini_answer_def)

text \<open>
  Claim C1 on a backlog of two chunks where the command answers the second chunk with
  the fenced JSON text \<^verbatim>\<open>[]\<close>, which is no table: \<^verbatim>\<open>json.loads\<close> gives the empty list,
  \<^verbatim>\<open>update\<close> stores nothing and does not raise, the checkpoint of chunk 2 is saved, and the
  translated artifact holds the translation of chunk 1 and no entry of chunk 2.
\<close>

theorem array_answer_drops_chunk:
  "map_sum id (\<lambda>w. (dict_get (files w) (TranslatedFile ''261106''), map fst (saved (trace w))))
     (auto_translate array_answer_env None (world_with_backlog [(''k1'', ''v1''), (''k2'', ''v2'')]))
   = Inr (Some (Intact [(''k1'', ''t1'')]),
          [ProgressFile 1, ProgressFile 2, TranslatedFile ''261106''])"
  by (simp add: run_defs array_answer_env_def example_defs)

text \<open>
  An answer \<^verbatim>\<open>[["x", "y"], 1]\<close> to the only chunk: \<^verbatim>\<open>update\<close> stores the pair and raises on
  the second element, the \<^verbatim>\<open>except\<close> branch adds the chunk's own entries, and no checkpoint
  is saved.
\<close>

lemma partial_answer_merges_junk:
  "map_sum id (\<lambda>w. (dict_get (files w) (TranslatedFile ''261106''), map fst (saved (trace w))))
     (auto_translate (array_answer_env\<lparr>gemini := (\<lambda>chunk. Exited 0 (Parsed (JArray [Pair ''x'' ''y'', NotAPair])))\<rparr>)
        None (world_with_backlog [(''k1'', ''v1'')]))
   = Inr (Some (Intact [(''x'', ''y''), (''k1'', ''v1'')]), [TranslatedFile ''261106''])"
  by (simp add: run_defs array_answer_env_def example_defs)

lemma create_chunks_empty: "create_chunks n ([] :: table) = Inr chunks \<Longrightarrow> chunks = []"
  by (auto simp: create_chunks_def chunks_from.simps split: if_splits)

text \<open>
  Claim C4. Let a full run on a backlog of at least two chunks be given and \<open>k\<close> between 2
  and the number of chunks. A run with \<^verbatim>\<open>resume = k\<close> on the same backlog, in a working
  directory where the checkpoint \<open>k - 1\<close> holds the table the full run saved as checkpoint
  \<open>k - 1\<close>, or is missing (as after the clean-up of the full run), writes the same
  translated artifact as the full run. The translation command is a function of the
  chunk, so it answers the same in both runs.
\<close>

theorem resume_matches_full_run:
  assumes latest: "latest_file e ''all_untranslated'' = Some f"
    and src: "dict_get (files w) f = Some (Intact data)"
    and src2: "dict_get (files w2) f = Some (Intact data)"
    and ch: "create_chunks (translation_chunk_size e) data = Inr chunks"
    and k: "2 \<le> k" "k \<le> int (length chunks)"
    and out_ok: "disk e (TranslatedFile (date_str e)) = WriteOk"
    and fresh: "trace w = []"
    and full: "auto_translate e None w = Inr wd"
    and ckpt: "dict_get (files w2) (ProgressFile (k - 1)) = None
               \<or> (\<exists>t. dict_get (files w2) (ProgressFile (k - 1)) = Some (Intact t)
                       \<and> (ProgressFile (k - 1), t) \<in> set (saved (trace wd)))"
  shows "\<exists>wr final. auto_translate e (Some k) w2 = Inr wr
     \<and> dict_get (files wr) (TranslatedFile (date_str e)) = Some (Intact final)
     \<and> dict_get (files wd) (TranslatedFile (date_str e)) = Some (Intact final)"
proof -
  let ?out = "TranslatedFile (date_str e)"
  let ?step = "chunk_step e"
  let ?final = "fold ?step chunks []"
  from ch k have ne: "data \<noteq> []" using create_chunks_empty [of "translation_chunk_size e" chunks] by auto
  have r0: "fst (resume_from None w) = ([], 1)" by (simp add: resume_from_fst)
  from auto_translate_run [OF latest src ne ch r0] full out_ok fresh
  have full_out: "dict_get (files wd) ?out = Some (Intact ?final)"
    and full_saved: "\<forall>j t. (ProgressFile j, t) \<in> set (saved (trace wd)) \<longrightarrow>
           1 \<le> j \<and> j \<le> int (length chunks) \<and> t = fold ?step (take (nat j) chunks) []"
    by auto
  from ckpt show ?thesis
  proof
    assume "dict_get (files w2) (ProgressFile (k - 1)) = None"
    with k have "fst (resume_from (Some k) w2) = ([], 1)" by (simp add: resume_from_fst)
    from auto_translate_run [OF latest src2 ne ch this] out_ok obtain wr where
      "auto_translate e (Some k) w2 = Inr wr" "dict_get (files wr) ?out = Some (Intact ?final)"
      by auto
    with full_out show ?thesis by blast
  next
    assume "\<exists>t. dict_get (files w2) (ProgressFile (k - 1)) = Some (Intact t)
               \<and> (ProgressFile (k - 1), t) \<in> set (saved (trace wd))"
    then obtain t where t: "dict_get (files w2) (ProgressFile (k - 1)) = Some (Intact t)"
      and sv: "(ProgressFile (k - 1), t) \<in> set (saved (trace wd))" by blast
    from full_saved sv have teq: "t = fold ?step (take (nat (k - 1)) chunks) []" by blast
    from t k have "fst (resume_from (Some k) w2) = (t, k)" by (simp add: resume_from_fst)
    from auto_translate_run [OF latest src2 ne ch this] out_ok obtain wr where
      run: "auto_translate e (Some k) w2 = Inr wr"
      and out: "dict_get (files wr) ?out = Some (Intact (fold ?step (drop (nat (k - 1)) chunks) t))"
      by auto
    have "fold ?step (take (nat (k - 1)) chunks @ drop (nat (k - 1)) chunks) []
            = fold ?step (drop (nat (k - 1)) chunks) t"
      unfolding teq by (simp only: fold_append o_apply)
    then have "fold ?step (drop (nat (k - 1)) chunks) t = ?final" by simp
    with run out full_out show ?thesis by auto
  qed
qed

lemma report_save_json [simp]: "report (trace (save_json e data p w)) = report (trace w)"
  by (simp add: save_json_trace)

lemma report_save_json_meta [simp]: "report (trace (save_json_meta e data w)) = report (trace w)"
  by (simp add: save_json_meta_def write_file_def split: write_outcome.splits)

lemma report_cleanup [simp]: "report (trace (cleanup_progress_files e w)) = report (trace w)"
  using cleanup_progress_files_frame [of e w] by auto

lemma call_gemini_cli_report:
  assumes "gemini e1 = gemini e2" and "report (trace w1) = report (trace w2)"
  shows "fst (call_gemini_cli e1 c w1) = fst (call_gemini_cli e2 c w2)
       \<and> report (trace (snd (call_gemini_cli e1 c w1))) = report (trace (snd (call_gemini_cli e2 c w2)))"
  using assms by (simp add: call_gemini_cli_def Let_def split: proc.splits payload.splits)

lemma translate_chunks_report:
  assumes g: "gemini e1 = gemini e2"
  shows "report (trace w1) = report (trace w2) \<Longrightarrow>
       fst (translate_chunks e1 s n i chunks (td, w1)) = fst (translate_chunks e2 s n i chunks (td, w2))
       \<and> report (trace (snd (translate_chunks e1 s n i chunks (td, w1))))
           = report (trace (snd (translate_chunks e2 s n i chunks (td, w2))))"
proof (induction chunks arbitrary: i td w1 w2)
  case Nil
  then show ?case by simp
next
  case (Cons c rest)
  show ?case
  proof (cases "i < s")
    case True
    with Cons.IH [OF Cons.prems, of "i + 1" td] show ?thesis by simp
  next
    case False
    let ?v1 = "log INFO ''processing chunk'' w1" and ?v2 = "log INFO ''processing chunk'' w2"
    have rv: "report (trace ?v1) = report (trace ?v2)" using Cons.prems by simp
    obtain r1 u1 where c1: "call_gemini_cli e1 c ?v1 = (r1, u1)" by (cases "call_gemini_cli e1 c ?v1")
    obtain r2 u2 where c2: "call_gemini_cli e2 c ?v2 = (r2, u2)" by (cases "call_gemini_cli e2 c ?v2")
    from call_gemini_cli_report [OF g rv, of c] c1 c2
    have req: "r1 = r2" and ru: "report (trace u1) = report (trace u2)" by simp_all
    show ?thesis
    proof (cases r1)
      case (Inl err)
      let ?x1 = "log INFO ''chunk skipped, original data is used'' (log ERROR ''error while processing chunk'' u1)"
      let ?x2 = "log INFO ''chunk skipped, original data is used'' (log ERROR ''error while processing chunk'' u2)"
      have "report (trace ?x1) = report (trace ?x2)" using ru by simp
      moreover from c1 c2 req Inl have "call_gemini_cli e1 c ?v1 = (Inl err, u1)"
        "call_gemini_cli e2 c ?v2 = (Inl err, u2)" by simp_all
      ultimately show ?thesis using Cons.IH [of ?x1 ?x2 "i + 1" "dict_update td c"] False
        by simp
    next
      case (Inr t)
      from c1 c2 req Inr have cs: "call_gemini_cli e1 c ?v1 = (Inr t, u1)"
        "call_gemini_cli e2 c ?v2 = (Inr t, u2)" by simp_all
      obtain td' x where up: "py_update td t = (td', x)" by (cases "py_update td t")
      show ?thesis
      proof (cases x)
        case None
        let ?x1 = "if i < n then emit Slept (log INFO ''waiting'' (save_json e1 td' (ProgressFile i) u1))
                   else save_json e1 td' (ProgressFile i) u1"
        let ?x2 = "if i < n then emit Slept (log INFO ''waiting'' (save_json e2 td' (ProgressFile i) u2))
                   else save_json e2 td' (ProgressFile i) u2"
        have "report (trace ?x1) = report (trace ?x2)" using ru by simp
        then show ?thesis using Cons.IH [of ?x1 ?x2 "i + 1" td'] False cs up None
          by (simp add: Let_def)
      next
        case (Some err)
        let ?x1 = "log INFO ''chunk skipped, original data is used'' (log ERROR ''error while processing chunk'' u1)"
        let ?x2 = "log INFO ''chunk skipped, original data is used'' (log ERROR ''error while processing chunk'' u2)"
        have "report (trace ?x1) = report (trace ?x2)" using ru by simp
        then show ?thesis using Cons.IH [of ?x1 ?x2 "i + 1" "dict_update td' c"] False cs up Some
          by simp
      qed
    qed
  qed
qed

lemma auto_translate_outcome:
  "outcome (auto_translate (e\<lparr>disk := d\<rparr>) r w) = outcome (auto_translate e r w)"
proof (cases "latest_file e ''all_untranslated''")
  case None
  then show ?thesis by (simp add: auto_translate_def outcome_def)
next
  case (Some f)
  let ?w0 = "log INFO ''step 3: automatic translation starts'' w"
  obtain loaded w1 where ld: "load_json f ?w0 = (loaded, w1)" by (cases "load_json f ?w0")
  show ?thesis
  proof (cases "loaded = None \<or> loaded = Some []")
    case True
    with Some ld show ?thesis by (auto simp: auto_translate_def outcome_def)
  next
    case False
    then obtain data where data: "loaded = Some data" "data \<noteq> []" by auto
    show ?thesis
    proof (cases "create_chunks (translation_chunk_size e) data")
      case (Inl err)
      with Some ld data show ?thesis by (simp add: auto_translate_def outcome_def)
    next
      case (Inr chunks)
      let ?w1 = "log INFO ''split into chunks''
                   (log INFO ''total number of items''
                     (log INFO ''output file'' (log INFO ''input file'' w1)))"
      obtain init start w2 where rs: "resume_from r ?w1 = ((init, start), w2)"
        by (cases "resume_from r ?w1") auto
      let ?n = "int (length chunks)"
      obtain td1 x1 where l1: "translate_chunks (e\<lparr>disk := d\<rparr>) start ?n 1 chunks (init, w2) = (td1, x1)"
        by (cases "translate_chunks (e\<lparr>disk := d\<rparr>) start ?n 1 chunks (init, w2)")
      obtain td2 x2 where l2: "translate_chunks e start ?n 1 chunks (init, w2) = (td2, x2)"
        by (cases "translate_chunks e start ?n 1 chunks (init, w2)")
      have "gemini (e\<lparr>disk := d\<rparr>) = gemini e" by simp
      from translate_chunks_report [OF this refl, of start ?n 1 chunks init w2] l1 l2
      have "report (trace x1) = report (trace x2)" by simp
      with Some ld data Inr rs l1 l2 show ?thesis
        by (simp add: auto_translate_def outcome_def)
    qed
  qed
qed

lemma build_resource_pack_outcome:
  "outcome (build_resource_pack (e\<lparr>disk := d\<rparr>) w) = outcome (build_resource_pack e w)"
  by (simp add: build_resource_pack_def outcome_def Let_def split: option.splits prod.splits)

lemma find_untranslated_report:
  "report (trace (find_untranslated (e\<lparr>disk := d\<rparr>) w)) = report (trace (find_untranslated e w))"
  by (simp add: find_untranslated_def Let_def split: option.splits prod.splits)

lemma extract_lang_diff_report:
  "report (trace (extract_lang_diff (e\<lparr>disk := d\<rparr>) w)) = report (trace (extract_lang_diff e w))"
  by (simp add: extract_lang_diff_def Let_def)

text \<open>
  A full run on three chunks, whose second chunk fails, and the run with \<^verbatim>\<open>resume = 2\<close>
  from the checkpoint of chunk 1.
\<close>

theorem resume_matches_full_run_witness:
  "latest_file example_env ''all_untranslated'' = Some (UntranslatedFile ''261105'')
   \<and> create_chunks (translation_chunk_size example_env) [(''k1'', ''v1''), (''k2'', ''v2''), (''k3'', ''v3'')]
       = Inr [[(''k1'', ''v1'')], [(''k2'', ''v2'')], [(''k3'', ''v3'')]]
   \<and> disk example_env (TranslatedFile (date_str example_env)) = WriteOk
   \<and> trace (world_with_backlog [(''k1'', ''v1''), (''k2'', ''v2''), (''k3'', ''v3'')]) = []
   \<and> (\<exists>wd wr. auto_translate example_env None
                  (world_with_backlog [(''k1'', ''v1''), (''k2'', ''v2''), (''k3'', ''v3'')]) = Inr wd
        \<and> (ProgressFile 1, [(''k1'', ''t1'')]) \<in> set (saved (trace wd))
        \<and> dict_get (files (world_interrupted [(''k1'', ''v1''), (''k2'', ''v2''), (''k3'', ''v3'')] [(''k1'', ''t1'')]))
             (ProgressFile (2 - 1)) = Some (Intact [(''k1'', ''t1'')])
        \<and> auto_translate example_env (Some 2)
             (world_interrupted [(''k1'', ''v1''), (''k2'', ''v2''), (''k3'', ''v3'')] [(''k1'', ''t1'')]) = Inr wr
        \<and> dict_get (files wr) (TranslatedFile ''261106'')
             = Some (Intact [(''k1'', ''t1''), (''k2'', ''v2''), (''k3'', ''t3'')])
        \<and> dict_get (files wd) (TranslatedFile ''261106'')
             = Some (Intact [(''k1'', ''t1''), (''k2'', ''v2''), (''k3'', ''t3'')]))"
proof -
  let ?data = "[(''k1'', ''v1''), (''k2'', ''v2''), (''k3'', ''v3'')]"
  let ?w = "world_with_backlog ?data"
  let ?w2 = "world_interrupted ?data [(''k1'', ''t1'')]"
  let ?chunks = "[[(''k1'', ''v1'')], [(''k2'', ''v2'')], [(''k3'', ''v3'')]]"
  have h1: "latest_file example_env ''all_untranslated'' = Some (UntranslatedFile ''261105'')"
    by (simp add: example_env_def)
  have h2: "dict_get (files ?w) (UntranslatedFile ''261105'') = Some (Intact ?data)"
    by (simp add: world_with_backlog_def dict_get_def)
  have h3: "dict_get (files ?w2) (UntranslatedFile ''261105'') = Some (Intact ?data)"
    by (simp add: world_interrupted_def dict_get_def)
  have h4: "create_chunks (translation_chunk_size example_env) ?data = Inr ?chunks"
    by (simp add: example_env_def create_chunks_def chunks_from.simps dict_of_items_def dict_update_def)
  have h5: "(2::int) \<le> 2" and h6: "2 \<le> int (length ?chunks)" by simp_all
  have h7: "disk example_env (TranslatedFile (date_str example_env)) = WriteOk"
    by (simp add: example_env_def)
  have h8: "trace ?w = []" by (simp add: world_with_backlog_def)
  have sv: "map_sum id (\<lambda>w. saved (trace w)) (auto_translate example_env None ?w)
      = Inr [(ProgressFile 1, [(''k1'', ''t1'')]),
             (ProgressFile 3, [(''k1'', ''t1''), (''k2'', ''v2''), (''k3'', ''t3'')]),
             (TranslatedFile ''261106'', [(''k1'', ''t1''), (''k2'', ''v2''), (''k3'', ''t3'')])]"
    by (simp add: run_defs example_defs)
  then obtain wd where full: "auto_translate example_env None ?w = Inr wd"
    by (cases "auto_translate example_env None ?w") simp_all
  with sv have s1: "(ProgressFile 1, [(''k1'', ''t1'')]) \<in> set (saved (trace wd))" by simp
  have f2: "dict_get (files ?w2) (ProgressFile (2 - 1)) = Some (Intact [(''k1'', ''t1'')])"
    by (simp add: world_interrupted_def dict_get_def)
  with s1 have h9: "dict_get (files ?w2) (ProgressFile (2 - 1)) = None
               \<or> (\<exists>t. dict_get (files ?w2) (ProgressFile (2 - 1)) = Some (Intact t)
                       \<and> (ProgressFile (2 - 1), t) \<in> set (saved (trace wd)))"
    by simp
  from resume_matches_full_run [OF h1 h2 h3 h4 h5 h6 h7 h8 full h9] obtain wr final where
    r: "auto_translate example_env (Some 2) ?w2 = Inr wr"
    and o1: "dict_get (files wr) (TranslatedFile (date_str example_env)) = Some (Intact final)"
    and o2: "dict_get (files wd) (TranslatedFile (date_str example_env)) = Some (Intact final)"
    by blast
  have "map_sum id (\<lambda>w. dict_get (files w) (TranslatedFile ''261106'')) (auto_translate example_env None ?w)
      = Inr (Some (Intact [(''k1'', ''t1''), (''k2'', ''v2''), (''k3'', ''t3'')]))"
    by (simp add: run_defs example_defs)
  with full o2 have "final = [(''k1'', ''t1''), (''k2'', ''v2''), (''k3'', ''t3'')]"
    by (simp add: example_env_def)
  with o1 o2 have o: "dict_get (files wr) (TranslatedFile ''261106'')
             = Some (Intact [(''k1'', ''t1''), (''k2'', ''v2''), (''k3'', ''t3'')])"
     "dict_get (files wd) (TranslatedFile ''261106'')
             = Some (Intact [(''k1'', ''t1''), (''k2'', ''v2''), (''k3'', ''t3'')])"
    by (simp_all add: example_env_def)
  from h1 h4 h7 h8 full s1 f2 r o show ?thesis by blast
qed

subsection \<open>Publishing\<close>

lemma sorted_keys_of_sorted_items:
  fixes xs :: "('k :: linorder \<times> 'v :: linorder) list"
  assumes "sorted xs"
  shows "sorted (map fst xs)"
proof -
  have "sorted_wrt (\<lambda>a b. fst a \<le> fst b) xs"
    using assms by (rule sorted_wrt_mono_rel [rotated]) (auto simp: less_eq_prod_def)
  then show ?thesis by (simp add: sorted_wrt_map)
qed

lemma distinct_keys_sort:
  fixes xs :: "('k :: linorder \<times> 'v :: linorder) list"
  shows "distinct (map fst (sort xs)) = distinct (map fst xs)"
proof -
  have "set (map fst (sort xs)) = set (map fst xs)" and "length (map fst (sort xs)) = length (map fst xs)"
    by simp_all
  then show ?thesis by (metis card_distinct distinct_card)
qed

lemma sorted_dict:
  fixes d :: "('k :: linorder \<times> 'v :: linorder) list"
  assumes "is_dict d"
  shows "dict_of_items (sort d) = sort d"
    and "sorted (dict_keys (dict_of_items (sort d)))"
    and "is_dict (dict_of_items (sort d))"
    and "dict_get (dict_of_items (sort d)) k = dict_get d k"
    and "set (dict_keys (dict_of_items (sort d))) = set (dict_keys d)"
proof -
  from assms have ds: "distinct (map fst (sort d))" and dd: "distinct (map fst d)"
    by (simp_all add: distinct_keys_sort is_dict_def dict_keys_def)
  show eq: "dict_of_items (sort d) = sort d" by (rule dict_of_items_distinct [OF ds])
  show "sorted (dict_keys (dict_of_items (sort d)))"
    unfolding eq dict_keys_def by (rule sorted_keys_of_sorted_items) simp
  show "is_dict (dict_of_items (sort d))"
    unfolding eq using ds by (simp add: is_dict_def dict_keys_def)
  have "map_of (sort d) = map_of d"
    using ds dd by (simp add: map_of_inject_set)
  then show "dict_get (dict_of_items (sort d)) k = dict_get d k"
    unfolding eq by (simp add: dict_get_def)
  show "set (dict_keys (dict_of_items (sort d))) = set (dict_keys d)"
    unfolding eq by (simp add: dict_keys_def)
qed

lemma build_resource_pack_run:
  assumes latest: "latest_file e ''all_translated'' = Some f"
    and new: "dict_get (files w) f = Some (Intact translated)"
    and mk: "\<not> mkdir_fails e"
  shows "\<exists>w'. build_resource_pack e w = Inr w'
     \<and> dict_get (files w') LangFile
         = (case disk e LangFile of
              WriteOk \<Rightarrow> Some (Intact (dict_of_items (sort (dict_update (published w) translated))))
            | OpenFails \<Rightarrow> dict_get (files w) LangFile
            | DumpFails \<Rightarrow> Some Corrupt)"
proof -
  let ?w0 = "log INFO ''step 4: resource pack build starts'' w"
  have ld: "load_json f ?w0 = (Some translated, ?w0)"
    using new by (simp add: load_json_def)
  show ?thesis
  proof (cases "dict_get (files w) LangFile")
    case None
    then have "published w = []" by (simp add: published_def)
    with None latest ld mk show ?thesis
      by (simp add: build_resource_pack_def file_exists_def Let_def save_json_files
                    save_json_meta_def write_file_def
               split: write_outcome.splits)
  next
    case (Some c)
    show ?thesis
    proof (cases c)
      case (Intact t)
      with Some have "published w = t" by (simp add: published_def)
      with Some Intact latest ld mk show ?thesis
        by (simp add: build_resource_pack_def file_exists_def Let_def save_json_files load_json_def
                      save_json_meta_def write_file_def
                 split: write_outcome.splits)
    next
      case Corrupt
      with Some have "published w = []" by (simp add: published_def)
      with Some Corrupt latest ld mk show ?thesis
        by (simp add: build_resource_pack_def file_exists_def Let_def save_json_files load_json_def
                      save_json_meta_def write_file_def
                 split: write_outcome.splits)
    qed
  qed
qed

text \<open>
  Claim C5, as the code has it. With a readable translated artifact \<open>T\<close>, a creatable pack
  directory and a successful write, the stage returns without an exception and the
  published table is \<open>merge(P, T)\<close> sorted by key, where \<open>P\<close> is the table published
  before (empty when there was none): a key of \<open>T\<close> has the value of \<open>T\<close>, every other key the
  value of \<open>P\<close>; the keys ascend strictly; the key set is the union of the key sets of \<open>P\<close>
  and \<open>T\<close>, so a superset of both, which need not be strict.
\<close>

theorem publish_merges_sorted:
  assumes latest: "latest_file e ''all_translated'' = Some f"
    and new: "dict_get (files w) f = Some (Intact translated)"
    and dp: "is_dict (published w)" and dt: "is_dict translated"
    and mk: "\<not> mkdir_fails e"
    and ok: "disk e LangFile = WriteOk"
  shows "\<exists>w'. build_resource_pack e w = Inr w'
     \<and> dict_get (files w') LangFile = Some (Intact (published w'))
     \<and> (\<forall>k. dict_get (published w') k
              = (case dict_get translated k of Some v \<Rightarrow> Some v | None \<Rightarrow> dict_get (published w) k))
     \<and> sorted (dict_keys (published w')) \<and> is_dict (published w')
     \<and> set (dict_keys (published w')) = set (dict_keys (published w)) \<union> set (dict_keys translated)"
proof -
  let ?merged = "dict_update (published w) translated"
  let ?final = "dict_of_items (sort ?merged)"
  from build_resource_pack_run [OF latest new mk] ok obtain w' where
    run: "build_resource_pack e w = Inr w'" and out: "dict_get (files w') LangFile = Some (Intact ?final)"
    by auto
  from out have pub: "published w' = ?final" by (simp add: published_def)
  from merge_facts [OF dt, of "published w"] dp
  have keys: "set (dict_keys ?merged) = set (dict_keys (published w)) \<union> set (dict_keys translated)"
    and inb: "\<forall>k \<in> set (dict_keys translated). dict_get ?merged k = dict_get translated k"
    and ina: "\<forall>k. k \<notin> set (dict_keys translated) \<longrightarrow> dict_get ?merged k = dict_get (published w) k"
    and dm: "is_dict ?merged"
    by blast+
  have val: "dict_get ?merged k = (case dict_get translated k of Some v \<Rightarrow> Some v | None \<Rightarrow> dict_get (published w) k)" for k
  proof (cases "dict_get translated k")
    case None
    then have "k \<notin> set (dict_keys translated)" by (simp add: dict_get_None)
    with ina None show ?thesis by simp
  next
    case (Some v)
    then have "k \<in> set (dict_keys translated)" using dict_get_None [of translated k] by auto
    with inb Some show ?thesis by simp
  qed
  from sorted_dict [OF dm] val keys pub run out show ?thesis by auto
qed

lemmas publish_defs = build_resource_pack_def load_json_def log_def emit_def dict_get_def
  dict_of_items_def dict_update_def save_json_def save_json_meta_def write_file_def put_file_def
  dict_keys_def file_exists_def published_def Let_def example_env_def world_to_publish_def

text \<open>
  The example of the claim.
\<close>

theorem publish_merges_sorted_witness:
  "latest_file example_env ''all_translated'' = Some (TranslatedFile ''261106'')
   \<and> dict_get (files (world_to_publish (Some [(''a.x'', konnichiwa)]) [(''a.y'', sekai)])) (TranslatedFile ''261106'')
       = Some (Intact [(''a.y'', sekai)])
   \<and> published (world_to_publish (Some [(''a.x'', konnichiwa)]) [(''a.y'', sekai)]) = [(''a.x'', konnichiwa)]
   \<and> is_dict [(''a.x'', konnichiwa)] \<and> is_dict [(''a.y'', sekai)]
   \<and> \<not> mkdir_fails example_env \<and> disk example_env LangFile = WriteOk
   \<and> (\<exists>w'. build_resource_pack example_env (world_to_publish (Some [(''a.x'', konnichiwa)]) [(''a.y'', sekai)]) = Inr w'
         \<and> dict_get (files w') LangFile = Some (Intact [(''a.x'', konnichiwa), (''a.y'', sekai)])
         \<and> published w' = [(''a.x'', konnichiwa), (''a.y'', sekai)]
         \<and> sorted (dict_keys (published w'))
         \<and> set (dict_keys (published w')) = {''a.x'', ''a.y''})"
proof -
  let ?w = "world_to_publish (Some [(''a.x'', konnichiwa)]) [(''a.y'', sekai)]"
  have h1: "latest_file example_env ''all_translated'' = Some (TranslatedFile ''261106'')"
    by (simp add: example_env_def)
  have h2: "dict_get (files ?w) (TranslatedFile ''261106'') = Some (Intact [(''a.y'', sekai)])"
    by (simp add: world_to_publish_def dict_get_def)
  have p: "published ?w = [(''a.x'', konnichiwa)]"
    by (simp add: world_to_publish_def published_def dict_get_def)
  have d1: "is_dict [(''a.x'', konnichiwa)]" and h4: "is_dict [(''a.y'', sekai)]"
    by (simp_all add: is_dict_def dict_keys_def)
  from d1 p have h3: "is_dict (published ?w)" by simp
  have h5: "\<not> mkdir_fails example_env" and h6: "disk example_env LangFile = WriteOk"
    by (simp_all add: example_env_def)
  from publish_merges_sorted [OF h1 h2 h3 h4 h5 h6] obtain w' where
    run: "build_resource_pack example_env ?w = Inr w'"
    and out: "dict_get (files w') LangFile = Some (Intact (published w'))"
    and srt: "sorted (dict_keys (published w'))"
    and keys: "set (dict_keys (published w')) = set (dict_keys (published ?w)) \<union> set (dict_keys [(''a.y'', sekai)])"
    by blast
  have "map_sum id published (build_resource_pack example_env ?w) = Inr [(''a.x'', konnichiwa), (''a.y'', sekai)]"
    by (simp add: publish_defs)
  with run have pw: "published w' = [(''a.x'', konnichiwa), (''a.y'', sekai)]" by simp
  from keys p have "set (dict_keys (published w')) = {''a.x'', ''a.y''}"
    by (auto simp: dict_keys_def)
  with h1 h2 p d1 h4 h5 h6 run out pw srt show ?thesis by auto
qed

text \<open>
  Claim C5 as stated fails: on a first publish the published keys are the keys of the
  translated table, not a strict superset of them.
\<close>

theorem publish_strict_superset_counterexample:
  "map_sum id published (build_resource_pack example_env (world_to_publish None [(''a.y'', sekai)]))
     = Inr [(''a.y'', sekai)]
   \<and> \<not> set (dict_keys [(''a.y'', sekai)])
         \<subset> set (dict_keys (published (projr (build_resource_pack example_env
                                                   (world_to_publish None [(''a.y'', sekai)])))))"
proof -
  have "map_sum id published (build_resource_pack example_env (world_to_publish None [(''a.y'', sekai)]))
      = Inr [(''a.y'', sekai)]"
    by (simp add: publish_defs)
  then show ?thesis
    by (cases "build_resource_pack example_env (world_to_publish None [(''a.y'', sekai)])") simp_all
qed

subsection \<open>The difference against a merge\<close>

text \<open>
  Claim C8, as the code has it. The first-stage difference (by key sets) of \<open>a\<close> against
  \<open>merge(a, b)\<close> is empty. The second-stage difference, which also looks at values, holds
  exactly the entries of \<open>a\<close> whose merged value is empty; it is empty when no key of \<open>a\<close>
  has an empty merged value.
\<close>

theorem diff_of_merge:
  assumes "is_dict a" and "is_dict b"
  shows "lang_diff a (dict_update a b) = []
       \<and> set (untranslated_diff a (dict_update a b))
           = {(k, v). (k, v) \<in> set a \<and> dict_get (dict_update a b) k = Some []}
       \<and> ((\<forall>k \<in> set (dict_keys a). dict_get (dict_update a b) k \<noteq> Some [])
             \<longrightarrow> untranslated_diff a (dict_update a b) = [])"
proof -
  let ?m = "dict_update a b"
  have 1: "lang_diff a ?m = []" by (rule lang_diff_merge_empty)
  from merge_facts [OF assms(2), of a] assms(1)
  have dm: "is_dict ?m" and keys: "set (dict_keys a) \<subseteq> set (dict_keys ?m)" by auto
  have present: "dict_get ?m k \<noteq> None" if "(k, v) \<in> set a" for k v
  proof -
    from that have "k \<in> set (dict_keys a)" by (auto simp: dict_keys_def intro: rev_image_eqI)
    with keys show ?thesis by (auto simp: dict_get_None)
  qed
  have "set (untranslated_diff a ?m)
      = {(k, v). (k, v) \<in> set a \<and> (case dict_get ?m k of None \<Rightarrow> True | Some t \<Rightarrow> \<not> truthy t)}"
    by (rule set_untranslated_diff [OF assms(1) dm])
  also have "\<dots> = {(k, v). (k, v) \<in> set a \<and> dict_get ?m k = Some []}"
    using present by (fastforce simp: truthy_def split: option.splits)
  finally have 2: "set (untranslated_diff a ?m) = {(k, v). (k, v) \<in> set a \<and> dict_get ?m k = Some []}" .
  have 3: "(\<forall>k \<in> set (dict_keys a). dict_get ?m k \<noteq> Some []) \<longrightarrow> untranslated_diff a ?m = []"
  proof
    assume "\<forall>k \<in> set (dict_keys a). dict_get ?m k \<noteq> Some []"
    then have "{(k, v). (k, v) \<in> set a \<and> dict_get ?m k = Some []} = {}"
      by (auto simp: dict_keys_def intro: rev_image_eqI)
    with 2 show "untranslated_diff a ?m = []" by simp
  qed
  from 1 2 3 show ?thesis by blast
qed

text \<open>
  A table with one empty value that the overlay does not replace.
\<close>

theorem diff_of_merge_witness:
  "is_dict [(''a.x'', ''Hello''), (''a.y'', '''')] \<and> is_dict [(''a.x'', ''hi'')]
   \<and> lang_diff [(''a.x'', ''Hello''), (''a.y'', '''')]
        (dict_update [(''a.x'', ''Hello''), (''a.y'', '''')] [(''a.x'', ''hi'')]) = []
   \<and> set (untranslated_diff [(''a.x'', ''Hello''), (''a.y'', '''')]
             (dict_update [(''a.x'', ''Hello''), (''a.y'', '''')] [(''a.x'', ''hi'')]))
       = {(''a.y'', '''')}"
proof -
  let ?a = "[(''a.x'', ''Hello''), (''a.y'', '''')]"
  let ?b = "[(''a.x'', ''hi'')]"
  have h1: "is_dict ?a" and h2: "is_dict ?b" by (simp_all add: is_dict_def dict_keys_def)
  have "{(k, v). (k, v) \<in> set ?a \<and> dict_get (dict_update ?a ?b) k = Some []} = {(''a.y'', '''')}"
    by (auto simp: dict_update_def dict_get_def)
  with diff_of_merge [OF h1 h2] h1 h2 show ?thesis by simp
qed

text \<open>
  Claim C8 as stated fails for the second-stage difference: an entry with an empty value
  stays in the difference against the merge.
\<close>

theorem untranslated_diff_merge_counterexample:
  "\<not> untranslated_diff [(''k'', '''')] (dict_update [(''k'', '''')] []) = []"
  by (simp add: untranslated_diff_def select_keys_def dict_keys_def dict_get_def
                dict_update_def truthy_def)

subsection \<open>Failed writes\<close>

lemma save_json_meta_trace: "trace (save_json_meta e m w) = trace w @ [save_line_meta e m]"
  by (simp add: save_json_meta_def save_line_meta_def write_file_def split: write_outcome.splits)

lemma save_json_meta_files [simp]: "files (save_json_meta e m w) = files w"
  by (simp add: save_json_meta_def write_file_def split: write_outcome.splits)

lemma save_json_meta_manifest:
  "manifest (save_json_meta e m w)
     = (case disk e PackMcmeta of WriteOk \<Rightarrow> Some (Intact m) | OpenFails \<Rightarrow> manifest w
        | DumpFails \<Rightarrow> Some Corrupt)"
  by (simp add: save_json_meta_def write_file_def split: write_outcome.splits)

lemma extract_lang_diff_save_lines:
  "save_lines (trace (extract_lang_diff e w))
     = save_lines (trace w)
       @ [save_line e (DiffFile (date_str e)) (lang_diff (scanned_en_us e) (scanned_ja_jp e))]"
  by (simp add: extract_lang_diff_def Let_def save_json_trace)

lemma find_untranslated_save_lines:
  assumes "latest_file e ''all_diff'' = Some fd" and "dict_get (files w) fd = Some (Intact all_diff)"
  shows "save_lines (trace (find_untranslated e w))
     = save_lines (trace w)
       @ [save_line e (UntranslatedFile (date_str e))
            (if file_exists LangFile w then untranslated_diff all_diff (published w) else all_diff)]"
proof (cases "dict_get (files w) LangFile")
  case None
  with assms show ?thesis
    by (simp add: find_untranslated_def Let_def load_json_def file_exists_def save_json_trace)
next
  case (Some c)
  with assms show ?thesis
    by (cases c)
       (simp_all add: find_untranslated_def Let_def load_json_def file_exists_def published_def
                      save_json_trace)
qed

lemma build_resource_pack_save_lines:
  assumes "latest_file e ''all_translated'' = Some ft"
    and "dict_get (files w) ft = Some (Intact translated)"
    and "\<not> mkdir_fails e"
  shows "\<exists>w'. build_resource_pack e w = Inr w'
     \<and> save_lines (trace w')
         = save_lines (trace w)
           @ [save_line_meta e \<lparr>meta_pack_format = pack_format, meta_description = pack_description\<rparr>,
              save_line e LangFile (dict_of_items (sort (dict_update (published w) translated)))]
     \<and> Log INFO ''step 4 finished'' \<in> set (trace w')"
proof (cases "dict_get (files w) LangFile")
  case None
  with assms show ?thesis
    by (simp add: build_resource_pack_def Let_def load_json_def file_exists_def published_def
                  save_json_trace save_json_meta_trace)
next
  case (Some c)
  with assms show ?thesis
    by (cases c)
       (simp_all add: build_resource_pack_def Let_def load_json_def file_exists_def published_def
                      save_json_trace save_json_meta_trace)
qed

text \<open>
  Claim C10. The save operation returns a world whatever the write does: the table or the
  manifest is on disk when the write succeeded, and the log has one more line, the error
  line when the write failed. The outcome of each stage (the exception it ends with, or
  what it reports) is the same under every behaviour \<open>d\<close> of the disk. Each stage that finds
  its input sends its writes through the save operation and runs to its end: the
  extraction its dated artifact, the search its dated artifact, the build the manifest
  and the published table, the translation a checkpoint for every checkpointed chunk and
  its dated artifact, each with the line of its success or of its failure.
\<close>

theorem failed_write_never_changes_outcome:
  "(trace (save_json e data p w) = trace w @ [if disk e p = WriteOk then Saved p data else SaveFailed p]
      \<and> manifest (save_json e data p w) = manifest w
      \<and> (\<forall>q. dict_get (files (save_json e data p w)) q
                = (if q = p
                   then (case disk e p of WriteOk \<Rightarrow> Some (Intact data)
                         | OpenFails \<Rightarrow> dict_get (files w) p | DumpFails \<Rightarrow> Some Corrupt)
                   else dict_get (files w) q)))
   \<and> (trace (save_json_meta e m w)
        = trace w @ [if disk e PackMcmeta = WriteOk then SavedMeta m else SaveFailed PackMcmeta]
      \<and> files (save_json_meta e m w) = files w
      \<and> manifest (save_json_meta e m w)
          = (case disk e PackMcmeta of WriteOk \<Rightarrow> Some (Intact m) | OpenFails \<Rightarrow> manifest w
             | DumpFails \<Rightarrow> Some Corrupt))
   \<and> outcome (auto_translate (e\<lparr>disk := d\<rparr>) r w) = outcome (auto_translate e r w)
   \<and> outcome (build_resource_pack (e\<lparr>disk := d\<rparr>) w) = outcome (build_resource_pack e w)
   \<and> report (trace (find_untranslated (e\<lparr>disk := d\<rparr>) w)) = report (trace (find_untranslated e w))
   \<and> report (trace (extract_lang_diff (e\<lparr>disk := d\<rparr>) w)) = report (trace (extract_lang_diff e w))
   \<and> save_lines (trace (extract_lang_diff e w))
       = save_lines (trace w)
         @ [save_line e (DiffFile (date_str e)) (lang_diff (scanned_en_us e) (scanned_ja_jp e))]
   \<and> (latest_file e ''all_diff'' = Some fd \<and> dict_get (files w) fd = Some (Intact all_diff)
        \<longrightarrow> save_lines (trace (find_untranslated e w))
             = save_lines (trace w)
               @ [save_line e (UntranslatedFile (date_str e))
                    (if file_exists LangFile w then untranslated_diff all_diff (published w)
                     else all_diff)])
   \<and> (latest_file e ''all_translated'' = Some ft \<and> dict_get (files w) ft = Some (Intact translated)
        \<and> \<not> mkdir_fails e
        \<longrightarrow> (\<exists>w'. build_resource_pack e w = Inr w'
               \<and> save_lines (trace w')
                   = save_lines (trace w)
                     @ [save_line_meta e \<lparr>meta_pack_format = pack_format,
                                           meta_description = pack_description\<rparr>,
                        save_line e LangFile
                          (dict_of_items (sort (dict_update (published w) translated)))]
               \<and> Log INFO ''step 4 finished'' \<in> set (trace w')))
   \<and> (latest_file e ''all_untranslated'' = Some fu \<and> dict_get (files w) fu = Some (Intact backlog)
        \<and> backlog \<noteq> [] \<and> create_chunks (translation_chunk_size e) backlog = Inr chunks
        \<and> fst (resume_from r w) = (init, start)
        \<longrightarrow> (\<exists>w'. auto_translate e r w = Inr w'
               \<and> save_lines (trace w')
                   = save_lines (trace w) @ checkpoint_lines e start 1 chunks init
                     @ [save_line e (TranslatedFile (date_str e))
                          (fold (chunk_step e) (drop (nat (start - 1)) chunks) init)]
               \<and> Log INFO ''all translation finished'' \<in> set (trace w')))"
proof -
  have 1: "trace (save_json e data p w) = trace w @ [if disk e p = WriteOk then Saved p data else SaveFailed p]
      \<and> manifest (save_json e data p w) = manifest w
      \<and> (\<forall>q. dict_get (files (save_json e data p w)) q
                = (if q = p
                   then (case disk e p of WriteOk \<Rightarrow> Some (Intact data)
                         | OpenFails \<Rightarrow> dict_get (files w) p | DumpFails \<Rightarrow> Some Corrupt)
                   else dict_get (files w) q))"
    by (simp add: save_json_trace save_line_def save_json_files)
  have 2: "trace (save_json_meta e m w)
        = trace w @ [if disk e PackMcmeta = WriteOk then SavedMeta m else SaveFailed PackMcmeta]
      \<and> files (save_json_meta e m w) = files w
      \<and> manifest (save_json_meta e m w)
          = (case disk e PackMcmeta of WriteOk \<Rightarrow> Some (Intact m) | OpenFails \<Rightarrow> manifest w
             | DumpFails \<Rightarrow> Some Corrupt)"
    using save_json_meta_manifest [of e m w] by (simp add: save_json_meta_trace save_line_meta_def)
  have 3: "outcome (auto_translate (e\<lparr>disk := d\<rparr>) r w) = outcome (auto_translate e r w)"
    by (rule auto_translate_outcome)
  have 4: "outcome (build_resource_pack (e\<lparr>disk := d\<rparr>) w) = outcome (build_resource_pack e w)"
    by (rule build_resource_pack_outcome)
  have 5: "report (trace (find_untranslated (e\<lparr>disk := d\<rparr>) w)) = report (trace (find_untranslated e w))"
    by (rule find_untranslated_report)
  have 6: "report (trace (extract_lang_diff (e\<lparr>disk := d\<rparr>) w)) = report (trace (extract_lang_diff e w))"
    by (rule extract_lang_diff_report)
  note 7 = extract_lang_diff_save_lines [of e w]
  have 8: "latest_file e ''all_diff'' = Some fd \<and> dict_get (files w) fd = Some (Intact all_diff)
        \<longrightarrow> save_lines (trace (find_untranslated e w))
             = save_lines (trace w)
               @ [save_line e (UntranslatedFile (date_str e))
                    (if file_exists LangFile w then untranslated_diff all_diff (published w)
                     else all_diff)]"
    using find_untranslated_save_lines [of e fd w all_diff] by blast
  have 9: "latest_file e ''all_translated'' = Some ft \<and> dict_get (files w) ft = Some (Intact translated)
        \<and> \<not> mkdir_fails e
        \<longrightarrow> (\<exists>w'. build_resource_pack e w = Inr w'
               \<and> save_lines (trace w')
                   = save_lines (trace w)
                     @ [save_line_meta e \<lparr>meta_pack_format = pack_format,
                                           meta_description = pack_description\<rparr>,
                        save_line e LangFile
                          (dict_of_items (sort (dict_update (published w) translated)))]
               \<and> Log INFO ''step 4 finished'' \<in> set (trace w'))"
    using build_resource_pack_save_lines [of e ft w translated] by blast
  have 10: "latest_file e ''all_untranslated'' = Some fu \<and> dict_get (files w) fu = Some (Intact backlog)
        \<and> backlog \<noteq> [] \<and> create_chunks (translation_chunk_size e) backlog = Inr chunks
        \<and> fst (resume_from r w) = (init, start)
        \<longrightarrow> (\<exists>w'. auto_translate e r w = Inr w'
               \<and> save_lines (trace w')
                   = save_lines (trace w) @ checkpoint_lines e start 1 chunks init
                     @ [save_line e (TranslatedFile (date_str e))
                          (fold (chunk_step e) (drop (nat (start - 1)) chunks) init)]
               \<and> Log INFO ''all translation finished'' \<in> set (trace w'))"
  proof
    assume h: "latest_file e ''all_untranslated'' = Some fu \<and> dict_get (files w) fu = Some (Intact backlog)
        \<and> backlog \<noteq> [] \<and> create_chunks (translation_chunk_size e) backlog = Inr chunks
        \<and> fst (resume_from r w) = (init, start)"
    then have a: "latest_file e ''all_untranslated'' = Some fu" "dict_get (files w) fu = Some (Intact backlog)"
      "backlog \<noteq> []" "create_chunks (translation_chunk_size e) backlog = Inr chunks"
      "fst (resume_from r w) = (init, start)" by simp_all
    from auto_translate_run [OF a] show "\<exists>w'. auto_translate e r w = Inr w'
               \<and> save_lines (trace w')
                   = save_lines (trace w) @ checkpoint_lines e start 1 chunks init
                     @ [save_line e (TranslatedFile (date_str e))
                          (fold (chunk_step e) (drop (nat (start - 1)) chunks) init)]
               \<and> Log INFO ''all translation finished'' \<in> set (trace w')"
      by blast
  qed
  show ?thesis
    by (rule conjI [OF 1 conjI [OF 2 conjI [OF 3 conjI [OF 4 conjI [OF 5 conjI [OF 6
          conjI [OF 7 conjI [OF 8 conjI [OF 9 10]]]]]]]]])
qed

text \<open>
  The stages on a disk where the first checkpoint, the published table and the manifest
  cannot be written: each stage runs to its end and the log holds the error lines.
\<close>

theorem failed_write_never_changes_outcome_witness:
  "latest_file failing_disk_env ''all_diff'' = Some (DiffFile ''261105'')
   \<and> dict_get (files world_with_artifacts) (DiffFile ''261105'')
       = Some (Intact [(''k1'', ''v1''), (''k2'', ''v2'')])
   \<and> latest_file failing_disk_env ''all_translated'' = Some (TranslatedFile ''261105'')
   \<and> dict_get (files world_with_artifacts) (TranslatedFile ''261105'') = Some (Intact [(''k1'', ''t1'')])
   \<and> \<not> mkdir_fails failing_disk_env
   \<and> latest_file failing_disk_env ''all_untranslated'' = Some (UntranslatedFile ''261105'')
   \<and> dict_get (files world_with_artifacts) (UntranslatedFile ''261105'')
       = Some (Intact [(''k1'', ''v1''), (''k2'', ''v2'')])
   \<and> create_chunks (translation_chunk_size failing_disk_env) [(''k1'', ''v1''), (''k2'', ''v2'')]
       = Inr [[(''k1'', ''v1'')], [(''k2'', ''v2'')]]
   \<and> fst (resume_from None world_with_artifacts) = ([], 1)
   \<and> trace (save_json failing_disk_env [(''k1'', ''t1'')] LangFile world_with_artifacts)
       = [SaveFailed LangFile]
   \<and> trace (save_json_meta failing_disk_env
               \<lparr>meta_pack_format = pack_format, meta_description = pack_description\<rparr>
               world_with_artifacts)
       = [SaveFailed PackMcmeta]
   \<and> outcome (auto_translate (failing_disk_env\<lparr>disk := (\<lambda>p. WriteOk)\<rparr>) None world_with_artifacts)
       = outcome (auto_translate failing_disk_env None world_with_artifacts)
   \<and> outcome (build_resource_pack (failing_disk_env\<lparr>disk := (\<lambda>p. WriteOk)\<rparr>) world_with_artifacts)
       = outcome (build_resource_pack failing_disk_env world_with_artifacts)
   \<and> save_lines (trace (find_untranslated failing_disk_env world_with_artifacts))
       = [Saved (UntranslatedFile ''261106'') [(''k1'', ''v1''), (''k2'', ''v2'')]]
   \<and> (\<exists>w'. build_resource_pack failing_disk_env world_with_artifacts = Inr w'
         \<and> save_lines (trace w') = [SaveFailed PackMcmeta, SaveFailed LangFile]
         \<and> Log INFO ''step 4 finished'' \<in> set (trace w'))
   \<and> (\<exists>w'. auto_translate failing_disk_env None world_with_artifacts = Inr w'
         \<and> save_lines (trace w')
             = [SaveFailed (ProgressFile 1),
                Saved (TranslatedFile ''261106'') [(''k1'', ''t1''), (''k2'', ''v2'')]]
         \<and> Log INFO ''all translation finished'' \<in> set (trace w'))"
proof -
  let ?e = "failing_disk_env" and ?w = "world_with_artifacts"
  let ?m = "\<lparr>meta_pack_format = pack_format, meta_description = pack_description\<rparr>"
  let ?backlog = "[(''k1'', ''v1''), (''k2'', ''v2'')]"
  let ?chunks = "[[(''k1'', ''v1'')], [(''k2'', ''v2'')]]"
  note defs = failing_disk_env_def failing_disk_def example_env_def example_gemini_def
    world_with_artifacts_def
  have h1: "latest_file ?e ''all_diff'' = Some (DiffFile ''261105'')"
    and h2: "dict_get (files ?w) (DiffFile ''261105'') = Some (Intact ?backlog)"
    and h3: "latest_file ?e ''all_translated'' = Some (TranslatedFile ''261105'')"
    and h4: "dict_get (files ?w) (TranslatedFile ''261105'') = Some (Intact [(''k1'', ''t1'')])"
    and h5: "\<not> mkdir_fails ?e"
    and h6: "latest_file ?e ''all_untranslated'' = Some (UntranslatedFile ''261105'')"
    and h7: "dict_get (files ?w) (UntranslatedFile ''261105'') = Some (Intact ?backlog)"
    by (simp_all add: defs dict_get_def)
  have h8: "?backlog \<noteq> []" by simp
  have h9: "create_chunks (translation_chunk_size ?e) ?backlog = Inr ?chunks"
    by (simp add: defs create_chunks_def chunks_from.simps dict_of_items_def dict_update_def)
  have h10: "fst (resume_from None ?w) = ([], 1)" by (simp add: resume_from_def)
  have d: "date_str ?e = ''261106''" "disk ?e (ProgressFile 1) = OpenFails" "disk ?e LangFile = DumpFails"
    "disk ?e PackMcmeta = OpenFails" "disk ?e (TranslatedFile ''261106'') = WriteOk"
    "disk ?e (UntranslatedFile ''261106'') = WriteOk" "trace ?w = []"
    by (simp_all add: defs)
  have ex: "file_exists LangFile ?w = False" "published ?w = []"
    by (simp_all add: defs file_exists_def published_def dict_get_def)
  have s1: "chunk_step ?e [(''k1'', ''v1'')] [] = [(''k1'', ''t1'')]"
    and s2: "chunk_step ?e [(''k2'', ''v2'')] [(''k1'', ''t1'')] = [(''k1'', ''t1''), (''k2'', ''v2'')]"
    and c1: "checkpointed ?e [(''k1'', ''v1'')]" and c2: "\<not> checkpointed ?e [(''k2'', ''v2'')]"
    by (simp_all add: defs chunk_step_def checkpointed_def gemini_answer_def dict_update_def)
  note inst = failed_write_never_changes_outcome
    [where e = ?e and w = ?w and d = "\<lambda>p. WriteOk" and r = None and data = "[(''k1'', ''t1'')]"
       and p = LangFile and m = ?m and fd = "DiffFile ''261105''" and all_diff = ?backlog
       and ft = "TranslatedFile ''261105''" and translated = "[(''k1'', ''t1'')]"
       and fu = "UntranslatedFile ''261105''" and backlog = ?backlog and chunks = ?chunks
       and init = "[]" and start = 1]
  from inst d have a1: "trace (save_json ?e [(''k1'', ''t1'')] LangFile ?w) = [SaveFailed LangFile]"
    and a2: "trace (save_json_meta ?e ?m ?w) = [SaveFailed PackMcmeta]"
    by simp_all
  from inst have a3: "outcome (auto_translate (?e\<lparr>disk := (\<lambda>p. WriteOk)\<rparr>) None ?w)
       = outcome (auto_translate ?e None ?w)"
    and a4: "outcome (build_resource_pack (?e\<lparr>disk := (\<lambda>p. WriteOk)\<rparr>) ?w)
       = outcome (build_resource_pack ?e ?w)"
    by blast+
  from inst h1 h2 have "save_lines (trace (find_untranslated ?e ?w))
             = save_lines (trace ?w)
               @ [save_line ?e (UntranslatedFile (date_str ?e))
                    (if file_exists LangFile ?w then untranslated_diff ?backlog (published ?w)
                     else ?backlog)]"
    by blast
  then have a5: "save_lines (trace (find_untranslated ?e ?w))
       = [Saved (UntranslatedFile ''261106'') ?backlog]"
    using d ex by (simp add: save_line_def)
  from inst h3 h4 h5 obtain wb where b: "build_resource_pack ?e ?w = Inr wb"
    "save_lines (trace wb)
       = save_lines (trace ?w)
         @ [save_line_meta ?e ?m,
            save_line ?e LangFile (dict_of_items (sort (dict_update (published ?w) [(''k1'', ''t1'')])))]"
    "Log INFO ''step 4 finished'' \<in> set (trace wb)"
    by blast
  from b(2) d have "save_lines (trace wb) = [SaveFailed PackMcmeta, SaveFailed LangFile]"
    by (simp add: save_line_def save_line_meta_def)
  with b have a6: "\<exists>w'. build_resource_pack ?e ?w = Inr w'
         \<and> save_lines (trace w') = [SaveFailed PackMcmeta, SaveFailed LangFile]
         \<and> Log INFO ''step 4 finished'' \<in> set (trace w')"
    by blast
  from inst h6 h7 h8 h9 h10 obtain wa where a: "auto_translate ?e None ?w = Inr wa"
    "save_lines (trace wa)
       = save_lines (trace ?w) @ checkpoint_lines ?e 1 1 ?chunks []
         @ [save_line ?e (TranslatedFile (date_str ?e)) (fold (chunk_step ?e) (drop (nat (1 - 1)) ?chunks) [])]"
    "Log INFO ''all translation finished'' \<in> set (trace wa)"
    by blast
  from a(2) d s1 s2 c1 c2 have "save_lines (trace wa)
       = [SaveFailed (ProgressFile 1), Saved (TranslatedFile ''261106'') [(''k1'', ''t1''), (''k2'', ''v2'')]]"
    by (simp add: save_line_def)
  with a have a7: "\<exists>w'. auto_translate ?e None ?w = Inr w'
         \<and> save_lines (trace w')
             = [SaveFailed (ProgressFile 1),
                Saved (TranslatedFile ''261106'') [(''k1'', ''t1''), (''k2'', ''v2'')]]
         \<and> Log INFO ''all translation finished'' \<in> set (trace w')"
    by blast
  from h1 h2 h3 h4 h5 h6 h7 h9 h10 a1 a2 a3 a4 a5 a6 a7 show ?thesis by blast
qed

end
